theory Spec2Isabelle
  imports Main "HOL-Library.AList" "HOL-Library.Sublist"
begin

section \<open>JavaScript values\<close>

text \<open>
  The hooks and the index manager work on untyped JSON-like values (\<open>any\<close> in the
  TypeScript source). Numbers are modelled as integers (identifiers and counts; no
  arithmetic on fractions occurs in the code under study), strings as lists of 8-bit
  code units (Latin-1), objects as association lists in insertion order.
\<close>

datatype jsval =
    JUndefined
  | JNull
  | JBool bool
  | JNum int
  | JStr string
  | JArr "jsval list"
  | JObj "(string \<times> jsval) list"

type_synonym obj = "(string \<times> jsval) list"

text \<open>ToBoolean: \<open>undefined\<close>, \<open>null\<close>, \<open>false\<close>, \<open>0\<close> and \<open>''\<close> are falsy.\<close>

fun truthy :: "jsval \<Rightarrow> bool" where
  "truthy JUndefined = False"
| "truthy JNull = False"
| "truthy (JBool b) = b"
| "truthy (JNum n) = (n \<noteq> 0)"
| "truthy (JStr s) = (s \<noteq> [])"
| "truthy (JArr xs) = True"
| "truthy (JObj kvs) = True"

text \<open>\<open>a || b\<close>\<close>

definition js_or :: "jsval \<Rightarrow> jsval \<Rightarrow> jsval" where
  "js_or a b = (if truthy a then a else b)"

text \<open>Reading from \<open>undefined\<close> or \<open>null\<close> throws a TypeError.\<close>

fun nullish :: "jsval \<Rightarrow> bool" where
  "nullish JUndefined = True"
| "nullish JNull = True"
| "nullish v = False"

text \<open>\<open>o[k]\<close> on an object held as an association list: \<open>undefined\<close> when the key is absent.\<close>

definition field :: "obj \<Rightarrow> string \<Rightarrow> jsval" where
  "field kvs k = (case map_of kvs k of Some v \<Rightarrow> v | None \<Rightarrow> JUndefined)"

text \<open>
  \<open>v.k\<close> on a value that is not \<open>undefined\<close> or \<open>null\<close>. None of the property names the
  code reads (\<open>children\<close>, \<open>type\<close>, \<open>text\<close>, \<open>name\<close>, the field names, ...) exists on the
  prototypes of strings, numbers, booleans or arrays, so those reads give \<open>undefined\<close>.
\<close>

fun get_prop :: "jsval \<Rightarrow> string \<Rightarrow> jsval" where
  "get_prop (JObj kvs) k = field kvs k"
| "get_prop v k = JUndefined"

text \<open>
  Any value can be thrown, and a promise can be rejected with any value. \<open>Error m\<close> is
  an \<open>Error\<close> object with the message \<open>m\<close>, as the runtime (TypeError) and the client
  libraries produce them; \<open>Thrown v\<close> is any other thrown value \<open>v\<close>.
\<close>

datatype js_error = Error string | Thrown jsval

text \<open>
  The TypeError of a read from \<open>undefined\<close> or \<open>null\<close>. Its message text differs
  between engines and names the value and the property; one fixed text stands for it.
\<close>

definition type_error :: js_error where
  "type_error = Error ''Cannot read properties of undefined''"

text \<open>
  \<open>error.message\<close> in a \<open>catch\<close> block: the read itself throws when the caught value is
  \<open>undefined\<close> or \<open>null\<close>.
\<close>

definition error_message :: "js_error \<Rightarrow> js_error + jsval" where
  "error_message e =
     (case e of
        Error m \<Rightarrow> Inr (JStr m)
      | Thrown v \<Rightarrow> if nullish v then Inl type_error else Inr (get_prop v ''message''))"


text \<open>\<open>a === b\<close>: primitives compare by value, arrays and objects by reference; two values
  that reach the code from different sources are never the same reference.\<close>

definition strict_eq :: "jsval \<Rightarrow> jsval \<Rightarrow> bool" where
  "strict_eq a b = (case a of JArr xs \<Rightarrow> False | JObj kvs \<Rightarrow> False | _ \<Rightarrow> a = b)"

text \<open>\<open>v.length\<close> on a value that is not \<open>undefined\<close> or \<open>null\<close>.\<close>

definition js_length :: "jsval \<Rightarrow> jsval" where
  "js_length v =
     (case v of
        JArr xs \<Rightarrow> JNum (int (length xs))
      | JStr s \<Rightarrow> JNum (int (length s))
      | JObj kvs \<Rightarrow> field kvs ''length''
      | _ \<Rightarrow> JUndefined)"

text \<open>\<open>xs.map(f)\<close> with a callback that may throw: the first exception ends the traversal.\<close>

fun traverse :: "('a \<Rightarrow> js_error + 'b) \<Rightarrow> 'a list \<Rightarrow> js_error + 'b list" where
  "traverse f [] = Inr []"
| "traverse f (x # xs) =
     (case f x of
        Inl e \<Rightarrow> Inl e
      | Inr y \<Rightarrow> (case traverse f xs of Inl e \<Rightarrow> Inl e | Inr ys \<Rightarrow> Inr (y # ys)))"

subsection \<open>Strings\<close>

definition digit_char :: "nat \<Rightarrow> char" where
  "digit_char n = ''0123456789'' ! n"

fun digits :: "nat \<Rightarrow> string" where
  "digits n = (if n < 10 then [digit_char n] else digits (n div 10) @ [digit_char (n mod 10)])"

declare digits.simps [simp del]

definition show_int :: "int \<Rightarrow> string" where
  "show_int i = (if i < 0 then CHR ''-'' # digits (nat (- i)) else digits (nat i))"

text \<open>\<open>Array.prototype.join\<close> on strings already converted.\<close>

fun join :: "string \<Rightarrow> string list \<Rightarrow> string" where
  "join sep [] = []"
| "join sep [x] = x"
| "join sep (x # y # ys) = x @ sep @ join sep (y # ys)"

text \<open>ToString; inside \<open>join\<close>, \<open>undefined\<close> and \<open>null\<close> elements become the empty string.\<close>

fun ToString :: "jsval \<Rightarrow> string" where
  "ToString JUndefined = ''undefined''"
| "ToString JNull = ''null''"
| "ToString (JBool b) = (if b then ''true'' else ''false'')"
| "ToString (JNum n) = show_int n"
| "ToString (JStr s) = s"
| "ToString (JArr xs) = join '','' (map (\<lambda>x. if nullish x then [] else ToString x) xs)"
| "ToString (JObj kvs) = ''[object Object]''"

definition join_elem :: "jsval \<Rightarrow> string" where
  "join_elem x = (if nullish x then [] else ToString x)"

definition array_join :: "string \<Rightarrow> jsval list \<Rightarrow> string" where
  "array_join sep xs = join sep (map join_elem xs)"

text \<open>White space of \<open>String.prototype.trim\<close> within Latin-1: TAB, LF, VT, FF, CR, SP, NBSP.\<close>

definition is_space :: "char \<Rightarrow> bool" where
  "is_space c = (let n = (of_char c :: nat) in (9 \<le> n \<and> n \<le> 13) \<or> n = 32 \<or> n = 160)"

definition trim :: "string \<Rightarrow> string" where
  "trim s = rev (dropWhile is_space (rev (dropWhile is_space s)))"

text \<open>\<open>toLowerCase\<close> within Latin-1: A-Z and the accented capitals move up by 32.\<close>

definition lower_char :: "char \<Rightarrow> char" where
  "lower_char c =
     (let n = (of_char c :: nat)
      in if (65 \<le> n \<and> n \<le> 90) \<or> (192 \<le> n \<and> n \<le> 214) \<or> (216 \<le> n \<and> n \<le> 222)
         then char_of (n + 32) else c)"

definition toLowerCase :: "string \<Rightarrow> string" where
  "toLowerCase s = map lower_char s"

section \<open>Dates of the runtime\<close>

text \<open>
  \<open>new Date(string)\<close> parses with the engine's parser, whose result on strings outside
  the ISO format is implementation-defined: the parser is a parameter, giving the time
  value in milliseconds since the epoch, or \<open>None\<close> for an invalid date (NaN). A time
  value beyond 8.64e15 ms in magnitude is invalid as well (TimeClip).
\<close>

type_synonym date_parser = "string \<Rightarrow> int option"

definition new_Date :: "date_parser \<Rightarrow> string \<Rightarrow> int option" where
  "new_Date Date_parse s =
     (case Date_parse s of
        None \<Rightarrow> None
      | Some t \<Rightarrow> if \<bar>t\<bar> \<le> 8640000000000000 then Some t else None)"

definition msPerDay :: int where
  "msPerDay = 86400000"

text \<open>The proleptic Gregorian date of a day number (days since 1970-01-01): year, month 1..12, day 1..31.\<close>

definition civil_from_days :: "int \<Rightarrow> int \<times> int \<times> int" where
  "civil_from_days days =
     (let z = days + 719468;
          era = z div 146097;
          doe = z mod 146097;
          yoe = (doe - doe div 1460 + doe div 36524 - doe div 146096) div 365;
          y = yoe + era * 400;
          doy = doe - (365 * yoe + yoe div 4 - yoe div 100);
          mp = (5 * doy + 2) div 153;
          d = doy - (153 * mp + 2) div 5 + 1;
          m = (if mp < 10 then mp + 3 else mp - 9)
      in (if m \<le> 2 then y + 1 else y, m, d))"

definition YearFromTime :: "int \<Rightarrow> int" where
  "YearFromTime t = fst (civil_from_days (t div msPerDay))"

definition MonthFromTime :: "int \<Rightarrow> int" where
  "MonthFromTime t = fst (snd (civil_from_days (t div msPerDay)))"

definition DateFromTime :: "int \<Rightarrow> int" where
  "DateFromTime t = snd (snd (civil_from_days (t div msPerDay)))"

definition pad2 :: "nat \<Rightarrow> string" where
  "pad2 n = [digit_char (n div 10 mod 10), digit_char (n mod 10)]"

definition pad3 :: "nat \<Rightarrow> string" where
  "pad3 n = digit_char (n div 100 mod 10) # pad2 n"

definition pad4 :: "nat \<Rightarrow> string" where
  "pad4 n = digit_char (n div 1000 mod 10) # pad3 n"

definition pad6 :: "nat \<Rightarrow> string" where
  "pad6 n = digit_char (n div 100000 mod 10) # digit_char (n div 10000 mod 10) # pad4 n"

text \<open>Years 0 to 9999 print with four digits, all others with a sign and six digits.\<close>

definition year_string :: "int \<Rightarrow> string" where
  "year_string y =
     (if 0 \<le> y \<and> y \<le> 9999 then pad4 (nat y)
      else (if y < 0 then CHR ''-'' else CHR ''+'') # pad6 (nat \<bar>y\<bar>))"

definition toISOString :: "int \<Rightarrow> string" where
  "toISOString t =
     (let tod = t mod msPerDay
      in year_string (YearFromTime t) @ ''-'' @ pad2 (nat (MonthFromTime t)) @ ''-''
         @ pad2 (nat (DateFromTime t)) @ ''T''
         @ pad2 (nat (tod div 3600000)) @ '':'' @ pad2 (nat (tod div 60000 mod 60)) @ '':''
         @ pad2 (nat (tod div 1000 mod 60)) @ ''.'' @ pad3 (nat (tod mod 1000)) @ ''Z'')"

text \<open>\<open>s.split('T')[0]\<close>: the part of \<open>s\<close> before its first \<open>T\<close>.\<close>

definition split_T_first :: "string \<Rightarrow> string" where
  "split_T_first s = takeWhile (\<lambda>c. c \<noteq> CHR ''T'') s"

section \<open>Field Mapper (src/index.ts, mapAPIFieldsToStrapi)\<close>

definition schemaEnums :: "(string \<times> string list) list" where
  "schemaEnums =
    [(''Client_Type'', [''Global Key Client'', ''Regional Key Client'', ''Regional Market Portfolio'', ''Client'']),
     (''Document_Confidentiality'', [''Not Confidential'', ''Confidential'']),
     (''Document_Type'', [''Proposal'', ''External case study'', ''Internal win story'', ''Experience listing'',
        ''Pitch content'', ''Marketing material'', ''Thought leadership'']),
     (''Document_Sub_Type'', [''Sole-source'', ''RFP Response'', ''Competitive'', ''Change Order'', ''Standalone'',
        ''EOI'', ''RFI'', ''RFQ'']),
     (''Document_Outcome'', [''Won'', ''Lost'', ''Abandoned'', ''Decision in progress'',
        ''Scope changed (Proposal Revised)'', ''Full Proposal Not Yet Submitted'']),
     (''Industry'', [''Industry A'', ''Industry B'', ''Industry C'']),
     (''Sub_Industry'', [''Sub A'', ''Sub B'', ''Sub C'']),
     (''Service'', [''Service A'', ''Service B'', ''Service C'']),
     (''Sub_Service'', [''Sub A'', ''Sub B'', ''Sub C'']),
     (''Business_Unit'', [''BU A'', ''BU B'', ''BU C'']),
     (''Region'', [''Region A'', ''Region B'', ''Region C'']),
     (''Country'', [''India'', ''USA'', ''UK'']),
     (''State'', [''Delhi'', ''California'', ''London'']),
     (''City'', [''New Delhi'', ''San Francisco'', ''Manchester'']),
     (''Commercial_Program'', [''R2L'', ''High Priority'', ''N/A''])]"

text \<open>
  \<open>allowed.includes(value)\<close> on an array of strings: SameValueZero never equates a
  string with a value of another type.
\<close>

definition array_includes :: "string list \<Rightarrow> jsval \<Rightarrow> bool" where
  "array_includes allowed v = (v \<in> set (map JStr allowed))"

definition validateEnum :: "string \<Rightarrow> jsval \<Rightarrow> jsval" where
  "validateEnum fld v =
     (case map_of schemaEnums fld of
        None \<Rightarrow> v
      | Some allowed \<Rightarrow>
          if \<not> truthy v then v
          else if array_includes allowed v then v else JNull)"

definition populateField :: "obj \<Rightarrow> string \<Rightarrow> jsval \<Rightarrow> (jsval \<Rightarrow> jsval) option \<Rightarrow> obj" where
  "populateField strapiData strapiField apiValue transformer =
     (if \<not> truthy (field strapiData strapiField) \<and> apiValue \<noteq> JUndefined \<and> apiValue \<noteq> JNull
           \<and> apiValue \<noteq> JStr []
      then (let transformedValue = (case transformer of Some tr \<Rightarrow> tr apiValue | None \<Rightarrow> apiValue)
            in if transformedValue \<noteq> JNull
               then AList.update strapiField transformedValue strapiData
               else strapiData)
      else strapiData)"

text \<open>The transformers passed to \<open>populateField\<close>.\<close>

definition blocksTransformer :: "jsval \<Rightarrow> jsval" where
  "blocksTransformer v =
     (case v of
        JStr s \<Rightarrow> JArr [JObj [(''type'', JStr ''paragraph''),
                               (''children'', JArr [JObj [(''type'', JStr ''text''), (''text'', JStr s)]])]]
      | _ \<Rightarrow> v)"

text \<open>
  \<open>new Date(val)\<close> does not throw on a string and \<open>toISOString\<close> is reached for valid
  dates only, so the \<open>catch\<close> branch of the source is dead.
\<close>

definition dateTransformer :: "date_parser \<Rightarrow> jsval \<Rightarrow> jsval" where
  "dateTransformer Date_parse v =
     (case v of
        JStr s \<Rightarrow> (case new_Date Date_parse s of
                     Some t \<Rightarrow> JStr (split_T_first (toISOString t))
                   | None \<Rightarrow> JNull)
      | _ \<Rightarrow> v)"

definition joinTransformer :: "jsval \<Rightarrow> jsval" where
  "joinTransformer v = (case v of JArr xs \<Rightarrow> JStr (array_join '', '' xs) | _ \<Rightarrow> v)"

text \<open>
  The calls of \<open>populateField\<close> in the order of the source; each reads the enrichment
  field of the same name as the target field it fills.
\<close>

definition field_mappings :: "date_parser \<Rightarrow> (string \<times> (jsval \<Rightarrow> jsval) option) list" where
  "field_mappings Date_parse =
    [(''Unique_Id'', None),
     (''Client_Name'', None),
     (''Client_Contact'', None),
     (''Client_Contact_Buying_Center'', None),
     (''Client_Journey'', None),
     (''Document_Value_Range'', None),
     (''Competitors'', None),
     (''Client_Type'', Some (validateEnum ''Client_Type'')),
     (''Document_Confidentiality'', Some (validateEnum ''Document_Confidentiality'')),
     (''Document_Type'', Some (validateEnum ''Document_Type'')),
     (''Document_Sub_Type'', Some (validateEnum ''Document_Sub_Type'')),
     (''Document_Outcome'', Some (validateEnum ''Document_Outcome'')),
     (''Industry'', Some (validateEnum ''Industry'')),
     (''Sub_Industry'', Some (validateEnum ''Sub_Industry'')),
     (''Service'', Some (validateEnum ''Service'')),
     (''Sub_Service'', Some (validateEnum ''Sub_Service'')),
     (''Business_Unit'', Some (validateEnum ''Business_Unit'')),
     (''Region'', Some (validateEnum ''Region'')),
     (''Country'', Some (validateEnum ''Country'')),
     (''State'', Some (validateEnum ''State'')),
     (''City'', Some (validateEnum ''City'')),
     (''Commercial_Program'', Some (validateEnum ''Commercial_Program'')),
     (''Description'', Some blocksTransformer),
     (''Last_Stage_Change_Date'', Some (dateTransformer Date_parse)),
     (''Author'', Some joinTransformer),
     (''SMEs'', Some joinTransformer)]"

definition populate_all :: "jsval \<Rightarrow> (string \<times> (jsval \<Rightarrow> jsval) option) list \<Rightarrow> obj \<Rightarrow> obj" where
  "populate_all apiData ms strapiData =
     foldl (\<lambda>d (f, tr). populateField d f (get_prop apiData f) tr) strapiData ms"

text \<open>
  The mapper mutates \<open>strapiData\<close> in place and returns nothing: the model returns how
  the call ended (\<open>Inl\<close> an exception) and the object after the call. With \<open>apiData\<close>
  \<open>undefined\<close> or \<open>null\<close> the first read \<open>apiData.Unique_Id\<close> throws before anything is
  written.
\<close>

definition mapAPIFieldsToStrapi :: "date_parser \<Rightarrow> obj \<Rightarrow> jsval \<Rightarrow> (js_error + unit) \<times> obj" where
  "mapAPIFieldsToStrapi Date_parse strapiData apiData =
     (if nullish apiData then (Inl (Error ''Cannot read properties of undefined''), strapiData)
      else (Inr (), populate_all apiData (field_mappings Date_parse) strapiData))"

section \<open>Document Transformer (meilisearch-manager.ts)\<close>

text \<open>\<open>children.filter(child => child.type === 'text')\<close>; a \<open>null\<close> child throws.\<close>

definition text_children :: "jsval list \<Rightarrow> js_error + jsval list" where
  "text_children children =
     (if list_ex nullish children then Inl type_error
      else Inr (filter (\<lambda>child. get_prop child ''type'' = JStr ''text'') children))"

definition block_text :: "jsval \<Rightarrow> js_error + string" where
  "block_text block =
     (if nullish block then Inl type_error
      else (case get_prop block ''children'' of
              JArr children \<Rightarrow>
                (case text_children children of
                   Inl e \<Rightarrow> Inl e
                 | Inr cs \<Rightarrow> Inr (array_join '' '' (map (\<lambda>child. get_prop child ''text'') cs)))
            | _ \<Rightarrow> Inr []))"

definition extractTextFromBlocks :: "jsval \<Rightarrow> js_error + string" where
  "extractTextFromBlocks blocks =
     (case blocks of
        JArr bs \<Rightarrow>
          (case traverse block_text bs of
             Inl e \<Rightarrow> Inl e
           | Inr texts \<Rightarrow> Inr (trim (join '' '' texts)))
      | _ \<Rightarrow> Inr [])"

definition attachment_text :: "jsval \<Rightarrow> js_error + string" where
  "attachment_text attachment =
     (if nullish attachment then Inl type_error
      else Inr (array_join '' ''
              (filter truthy [get_prop attachment ''name'', get_prop attachment ''alternativeText'',
                              get_prop attachment ''caption''])))"

definition formatAttachments :: "jsval \<Rightarrow> js_error + string" where
  "formatAttachments attachments =
     (case attachments of
        JArr as \<Rightarrow>
          (case traverse attachment_text as of
             Inl e \<Rightarrow> Inl e
           | Inr texts \<Rightarrow> Inr (join '' '' texts))
      | _ \<Rightarrow> Inr [])"

text \<open>\<open>document.k || ''\<close>\<close>

definition or_empty :: "jsval \<Rightarrow> string \<Rightarrow> string \<times> jsval" where
  "or_empty document k = (k, js_or (get_prop document k) (JStr []))"

definition core_fields :: "jsval \<Rightarrow> obj" where
  "core_fields document =
     map (or_empty document)
       [''SF_Number'', ''Unique_Id'', ''Client_Name'', ''Client_Type'', ''Client_Contact'',
        ''Client_Contact_Buying_Center'', ''Client_Journey'',
        ''Document_Confidentiality'', ''Document_Type'', ''Document_Sub_Type'', ''Document_Value_Range'',
        ''Document_Outcome'', ''Last_Stage_Change_Date'',
        ''Industry'', ''Sub_Industry'', ''Service'', ''Sub_Service'', ''Business_Unit'', ''Region'',
        ''Country'', ''State'', ''City'',
        ''Author'', ''SMEs'', ''Commercial_Program'', ''Competitors'']"

definition system_fields :: "jsval \<Rightarrow> obj" where
  "system_fields document =
     map (\<lambda>k. (k, get_prop document k)) [''publishedAt'', ''createdAt'', ''updatedAt'', ''locale'']"

definition searchableText :: "jsval \<Rightarrow> string \<Rightarrow> string \<Rightarrow> jsval" where
  "searchableText document descriptionText attachmentsText =
     JStr (toLowerCase (array_join '' '' (filter truthy
       [get_prop document ''SF_Number'',
        get_prop document ''Unique_Id'',
        get_prop document ''Client_Name'',
        get_prop document ''Client_Contact'',
        get_prop document ''Client_Contact_Buying_Center'',
        JStr descriptionText,
        get_prop document ''Document_Confidentiality'',
        get_prop document ''Industry'',
        get_prop document ''Service'',
        get_prop document ''Author'',
        get_prop document ''SMEs'',
        get_prop document ''Competitors'',
        JStr attachmentsText])))"

definition filters :: "jsval \<Rightarrow> jsval" where
  "filters document =
     JObj (map (or_empty document)
       [''Client_Type'', ''Document_Type'', ''Document_Sub_Type'', ''Document_Confidentiality'',
        ''Industry'', ''Sub_Industry'', ''Service'', ''Sub_Service'', ''Business_Unit'', ''Region'',
        ''Country'', ''State'', ''City'', ''Commercial_Program'', ''Document_Outcome''])"

text \<open>
  The first read \<open>document.Description\<close> throws when \<open>document\<close> is \<open>undefined\<close> or
  \<open>null\<close>; so do the two text helpers on a \<open>null\<close> block, child or attachment.
\<close>

definition transformDocumentForSearch :: "jsval \<Rightarrow> js_error + jsval" where
  "transformDocumentForSearch document =
     (if nullish document then Inl type_error
      else (case extractTextFromBlocks (get_prop document ''Description'') of
              Inl e \<Rightarrow> Inl e
            | Inr descriptionText \<Rightarrow>
                (case formatAttachments (get_prop document ''Attachments'') of
                   Inl e \<Rightarrow> Inl e
                 | Inr attachmentsText \<Rightarrow>
                     Inr (JObj (
                       [(''id'', get_prop document ''id''),
                        (''documentId'', get_prop document ''documentId'')]
                       @ core_fields document
                       @ system_fields document
                       @ [(''Description'', JStr descriptionText),
                          (''attachments_text'', JStr attachmentsText),
                          (''searchableText'', searchableText document descriptionText attachmentsText),
                          (''filters'', filters document)])))))"

text \<open>
  The document built inline by \<open>indexToMeiliSearch\<close> of the older hook file: the same
  projection with another \<open>id\<close> and two more fields.
\<close>

definition searchableDocument_inline :: "jsval \<Rightarrow> js_error + jsval" where
  "searchableDocument_inline document =
     (if nullish document then Inl type_error
      else (case extractTextFromBlocks (get_prop document ''Description'') of
              Inl e \<Rightarrow> Inl e
            | Inr descriptionText \<Rightarrow>
                (case formatAttachments (get_prop document ''Attachments'') of
                   Inl e \<Rightarrow> Inl e
                 | Inr attachmentsText \<Rightarrow>
                     Inr (JObj (
                       [(''id'', js_or (get_prop document ''documentId'') (get_prop document ''id'')),
                        (''documentId'', get_prop document ''documentId''),
                        (''strapiId'', get_prop document ''id'')]
                       @ core_fields document
                       @ system_fields document
                       @ [(''Description'', JStr descriptionText),
                          (''description_text'', JStr descriptionText),
                          (''attachments_text'', JStr attachmentsText),
                          (''searchableText'', searchableText document descriptionText attachmentsText),
                          (''filters'', filters document)])))))"

section \<open>The outside world: store, enrichment service, search engine, clock\<close>

text \<open>
  Every awaited call to a collaborator is recorded in a history. The world answers a call
  with a value or an exception, and may take the whole history into account, so any
  stateful behaviour of the store, the enrichment service and the engine is covered.
  A call also takes some time (\<open>latency\<close>), which the clock \<open>now\<close> (milliseconds) adds up.
\<close>

datatype call =
    EntityFindOne jsval
  | EntityFindMany
  | DbFindOne jsval
  | AxiosGet jsval
  | AddDocuments "jsval list"
  | DeleteDocument jsval
  | DeleteAllDocuments
  | GetStats

record world =
  respond :: "call list \<Rightarrow> js_error + jsval"
  latency :: "call list \<Rightarrow> nat"

record state =
  history :: "call list"
  now :: nat

definition perform :: "world \<Rightarrow> call \<Rightarrow> state \<Rightarrow> (js_error + jsval) \<times> state" where
  "perform w c s =
     (respond w (history s @ [c]),
      s\<lparr>history := history s @ [c], now := now s + latency w (history s @ [c])\<rparr>)"

text \<open>\<open>await new Promise(resolve => setTimeout(resolve, ms))\<close>\<close>

definition sleep :: "nat \<Rightarrow> state \<Rightarrow> state" where
  "sleep ms s = s\<lparr>now := now s + ms\<rparr>"

section \<open>Index Manager (meilisearch-manager.ts)\<close>

text \<open>
  \<open>waitForTask\<close>: polls the engine until it no longer reports indexing, an exception
  ends the polling, or 30 seconds have passed since the start.
\<close>

function waitForTask_loop :: "world \<Rightarrow> nat \<Rightarrow> state \<Rightarrow> state" where
  "waitForTask_loop w startTime s =
     (if now s - startTime < 30000
      then (case perform w GetStats s of
              (Inl e, s1) \<Rightarrow> s1
            | (Inr stats, s1) \<Rightarrow>
                if nullish stats then s1
                else if \<not> truthy (get_prop stats ''isIndexing'') then s1
                else waitForTask_loop w startTime (sleep 1000 s1))
      else s)"
  by pat_completeness auto
termination
  by (relation "measure (\<lambda>(w, startTime, s). startTime + 30000 - now s)")
     (auto simp add: perform_def sleep_def)

declare waitForTask_loop.simps [simp del]

definition waitForTask :: "world \<Rightarrow> state \<Rightarrow> state" where
  "waitForTask w s = waitForTask_loop w (now s) s"

definition clearIndex :: "world \<Rightarrow> state \<Rightarrow> (js_error + unit) \<times> state" where
  "clearIndex w s =
     (case perform w DeleteAllDocuments s of
        (Inl e, s1) \<Rightarrow> (Inl e, s1)
      | (Inr r, s1) \<Rightarrow> (Inr (), waitForTask w s1))"

text \<open>The batch loop of \<open>rebuildIndex\<close>: \<open>i\<close> steps by the batch size of 100.\<close>

function index_batches :: "world \<Rightarrow> jsval list \<Rightarrow> nat \<Rightarrow> nat \<times> nat \<Rightarrow> state \<Rightarrow> (nat \<times> nat) \<times> state" where
  "index_batches w searchableDocuments i (indexed, skipped) s =
     (if i < length searchableDocuments
      then (let batch = take 100 (drop i searchableDocuments)
            in case perform w (AddDocuments batch) s of
                 (Inr r, s1) \<Rightarrow>
                   index_batches w searchableDocuments (i + 100) (indexed + length batch, skipped) s1
               | (Inl e, s1) \<Rightarrow>
                   index_batches w searchableDocuments (i + 100) (indexed, skipped + length batch) s1)
      else ((indexed, skipped), s))"
  by pat_completeness auto
termination
  by (relation "measure (\<lambda>(w, docs, i, c, s). length docs - i)") auto

declare index_batches.simps [simp del]

definition rebuildIndex :: "world \<Rightarrow> state \<Rightarrow> (js_error + nat \<times> nat) \<times> state" where
  "rebuildIndex w s =
     (case perform w EntityFindMany s of
        (Inl e, s1) \<Rightarrow> (Inl e, s1)
      | (Inr documents, s1) \<Rightarrow>
          if \<not> truthy documents \<or> js_length documents = JNum 0 then (Inr (0, 0), s1)
          else (case documents of
                  JArr docs \<Rightarrow>
                    (case traverse transformDocumentForSearch docs of
                       Inl e \<Rightarrow> (Inl e, s1)
                     | Inr searchableDocuments \<Rightarrow>
                         (case index_batches w searchableDocuments 0 (0, 0) s1 of
                            (counts, s2) \<Rightarrow> (Inr counts, s2)))
                | _ \<Rightarrow> (Inl (Error ''documents.map is not a function''), s1)))"

record refresh_result =
  success :: bool
  message_text :: string
  stats :: "(nat \<times> nat) option"

text \<open>
  The \<open>catch\<close> block of \<open>refreshIndex\<close> builds its result from \<open>error.message\<close>, put into
  a template string.
\<close>

definition refresh_failed :: "jsval \<Rightarrow> refresh_result" where
  "refresh_failed m =
     \<lparr>success = False, message_text = ''Index refresh failed: '' @ ToString m, stats = None\<rparr>"

definition refresh_catch :: "js_error \<Rightarrow> js_error + refresh_result" where
  "refresh_catch e =
     (case error_message e of
        Inl raised \<Rightarrow> Inl raised
      | Inr m \<Rightarrow> Inr (refresh_failed m))"

definition refreshIndex :: "world \<Rightarrow> state \<Rightarrow> (js_error + refresh_result) \<times> state" where
  "refreshIndex w s =
     (case clearIndex w s of
        (Inl e, s1) \<Rightarrow> (refresh_catch e, s1)
      | (Inr u, s1) \<Rightarrow>
          (case rebuildIndex w s1 of
             (Inl e, s2) \<Rightarrow> (refresh_catch e, s2)
           | (Inr result, s2) \<Rightarrow>
               (Inr \<lparr>success = True,
                     message_text = ''Index refreshed successfully. Indexed ''
                        @ show_int (int (fst result)) @ '' documents.'',
                     stats = Some result\<rparr>, s2)))"

definition indexDocument :: "world \<Rightarrow> jsval \<Rightarrow> state \<Rightarrow> (js_error + unit) \<times> state" where
  "indexDocument w document s =
     (case transformDocumentForSearch document of
        Inl e \<Rightarrow> (Inl e, s)
      | Inr searchableDocument \<Rightarrow>
          (case perform w (AddDocuments [searchableDocument]) s of
             (Inl e, s1) \<Rightarrow> (Inl e, s1)
           | (Inr r, s1) \<Rightarrow> (Inr (), s1)))"

definition removeDocument :: "world \<Rightarrow> jsval \<Rightarrow> state \<Rightarrow> (js_error + unit) \<times> state" where
  "removeDocument w documentId s =
     (case perform w (DeleteDocument documentId) s of
        (Inl e, s1) \<Rightarrow> (Inl e, s1)
      | (Inr r, s1) \<Rightarrow> (Inr (), s1))"

section \<open>Synchronization Orchestrator (src/index.ts)\<close>

text \<open>
  A hook receives its event's objects (\<open>data\<close>, \<open>where.id\<close>, \<open>result\<close>) and returns the
  state of the world after it; the pre-hooks also return the pending payload \<open>data\<close>,
  which they mutate in place. Logging is left out, except where the logged expression
  can throw.
\<close>

text \<open>
  The \<open>catch\<close> block of \<open>fetchAndPopulateFromFastAPI\<close> logs \<open>error.message\<close>. The
  TypeErrors raised inside its \<open>try\<close> block (a \<open>null\<close> response, a \<open>null\<close> payload in the
  mapper) are \<open>Error\<close> objects, whose message can be read; a rejection of the request
  with \<open>undefined\<close> or \<open>null\<close> makes the \<open>catch\<close> block throw.
\<close>

definition fetchAndPopulateFromFastAPI ::
    "world \<Rightarrow> date_parser \<Rightarrow> obj \<Rightarrow> state \<Rightarrow> (js_error + unit) \<times> obj \<times> state" where
  "fetchAndPopulateFromFastAPI w Date_parse data s =
     (case perform w (AxiosGet (field data ''SF_Number'')) s of
        (Inl e, s1) \<Rightarrow>
          (case error_message e of
             Inl raised \<Rightarrow> (Inl raised, data, s1)
           | Inr m \<Rightarrow> (Inr (), data, s1))
      | (Inr response, s1) \<Rightarrow>
          if nullish response then (Inr (), data, s1)
          else if truthy (get_prop response ''data'')
                  \<and> truthy (get_prop (get_prop response ''data'') ''success'')
               then (Inr (), snd (mapAPIFieldsToStrapi Date_parse data
                                   (get_prop (get_prop response ''data'') ''data'')), s1)
               else (Inr (), data, s1))"

definition beforeCreate ::
    "world \<Rightarrow> date_parser \<Rightarrow> obj \<Rightarrow> state \<Rightarrow> (js_error + unit) \<times> obj \<times> state" where
  "beforeCreate w Date_parse data s =
     (if truthy (field data ''SF_Number'') \<and> \<not> truthy (field data ''manualOverride'')
      then fetchAndPopulateFromFastAPI w Date_parse data s
      else (Inr (), data, s))"

text \<open>
  \<open>data.hasOwnProperty('publishedAt')\<close>: the key is present, whatever its value. The
  payload is taken not to have a key named \<open>hasOwnProperty\<close> of its own.
\<close>

definition hasOwnProperty :: "obj \<Rightarrow> string \<Rightarrow> bool" where
  "hasOwnProperty data k = (map_of data k \<noteq> None)"

text \<open>
  In \<open>beforeUpdate\<close> the lookup and the fetch stand inside a \<open>try\<close> whose \<open>catch\<close> logs the
  caught value without reading from it: an exception of either is swallowed.
\<close>

definition beforeUpdate :: "world \<Rightarrow> date_parser \<Rightarrow> obj \<Rightarrow> jsval \<Rightarrow> state \<Rightarrow> obj \<times> state" where
  "beforeUpdate w Date_parse data where_id s =
     (let isPublishOperation = hasOwnProperty data ''publishedAt''
      in if isPublishOperation then (data, s)
         else if truthy (field data ''SF_Number'') \<and> \<not> truthy (field data ''manualOverride'')
         then (case perform w (EntityFindOne where_id) s of
                 (Inl e, s1) \<Rightarrow> (data, s1)
               | (Inr existingRecord, s1) \<Rightarrow>
                   if \<not> truthy existingRecord
                      \<or> \<not> strict_eq (get_prop existingRecord ''SF_Number'') (field data ''SF_Number'')
                   then snd (fetchAndPopulateFromFastAPI w Date_parse data s1)
                   else (data, s1))
         else (data, s))"

definition checkIfDocumentIsPublished :: "world \<Rightarrow> jsval \<Rightarrow> state \<Rightarrow> bool \<times> state" where
  "checkIfDocumentIsPublished w documentId s =
     (case perform w (DbFindOne documentId) s of
        (Inl e, s1) \<Rightarrow> (False, s1)
      | (Inr dbDoc, s1) \<Rightarrow>
          (truthy dbDoc \<and> get_prop dbDoc ''publishedAt'' \<noteq> JNull
             \<and> get_prop dbDoc ''publishedAt'' \<noteq> JUndefined, s1))"

definition afterCreate :: "world \<Rightarrow> obj \<Rightarrow> state \<Rightarrow> state" where
  "afterCreate w result s =
     (case checkIfDocumentIsPublished w (field result ''id'') s of
        (isPublished, s1) \<Rightarrow>
          if isPublished then snd (indexDocument w (JObj result) s1) else s1)"

definition afterUpdate :: "world \<Rightarrow> obj \<Rightarrow> state \<Rightarrow> state" where
  "afterUpdate w result s =
     (case checkIfDocumentIsPublished w (field result ''id'') s of
        (isPublished, s1) \<Rightarrow>
          if isPublished then snd (indexDocument w (JObj result) s1)
          else snd (removeDocument w (js_or (field result ''documentId'') (field result ''id'')) s1))"

definition afterDelete :: "world \<Rightarrow> obj \<Rightarrow> state \<Rightarrow> state" where
  "afterDelete w result s =
     snd (removeDocument w (js_or (field result ''documentId'') (field result ''id'')) s)"

section \<open>The older hook file (inline engine calls, no manager)\<close>

definition indexToMeiliSearch :: "world \<Rightarrow> jsval \<Rightarrow> state \<Rightarrow> state" where
  "indexToMeiliSearch w document s =
     (case searchableDocument_inline document of
        Inl e \<Rightarrow> s
      | Inr searchableDocument \<Rightarrow> snd (perform w (AddDocuments [searchableDocument]) s))"

definition removeFromMeiliSearch :: "world \<Rightarrow> jsval \<Rightarrow> state \<Rightarrow> state" where
  "removeFromMeiliSearch w documentId s = snd (perform w (DeleteDocument documentId) s)"

definition afterCreate_inline :: "world \<Rightarrow> obj \<Rightarrow> state \<Rightarrow> state" where
  "afterCreate_inline w result s =
     (if truthy (field result ''publishedAt'') then indexToMeiliSearch w (JObj result) s else s)"

definition afterUpdate_inline :: "world \<Rightarrow> obj \<Rightarrow> state \<Rightarrow> state" where
  "afterUpdate_inline w result s =
     (if truthy (field result ''publishedAt'') then indexToMeiliSearch w (JObj result) s
      else removeFromMeiliSearch w (js_or (field result ''documentId'') (field result ''id'')) s)"

definition afterDelete_inline :: "world \<Rightarrow> obj \<Rightarrow> state \<Rightarrow> state" where
  "afterDelete_inline w result s =
     removeFromMeiliSearch w (js_or (field result ''documentId'') (field result ''id'')) s"

section \<open>Notions of the specification\<close>

text \<open>
  The batches of a rebuild as the specification describes them: the documents cut into
  slices of 100, submitted one after the other, each counted as indexed or as skipped.
  \<open>failed_batches\<close> are the batches to whose submission the world answers with an
  exception, \<open>accepted_batches\<close> the others.
\<close>

function batches_from :: "'a list \<Rightarrow> nat \<Rightarrow> 'a list list" where
  "batches_from docs i =
     (if i < length docs then take 100 (drop i docs) # batches_from docs (i + 100) else [])"
  by pat_completeness auto
termination
  by (relation "measure (\<lambda>(docs, i). length docs - i)") auto

declare batches_from.simps [simp del]

fun submit_all :: "world \<Rightarrow> jsval list list \<Rightarrow> nat \<times> nat \<Rightarrow> state \<Rightarrow> (nat \<times> nat) \<times> state" where
  "submit_all w [] counts s = (counts, s)"
| "submit_all w (batch # rest) (indexed, skipped) s =
     (case perform w (AddDocuments batch) s of
        (Inr r, s1) \<Rightarrow> submit_all w rest (indexed + length batch, skipped) s1
      | (Inl e, s1) \<Rightarrow> submit_all w rest (indexed, skipped + length batch) s1)"

fun failed_batches :: "world \<Rightarrow> call list \<Rightarrow> jsval list list \<Rightarrow> jsval list list" where
  "failed_batches w h [] = []"
| "failed_batches w h (batch # rest) =
     (if isl (respond w (h @ [AddDocuments batch])) then [batch] else [])
     @ failed_batches w (h @ [AddDocuments batch]) rest"

fun accepted_batches :: "world \<Rightarrow> call list \<Rightarrow> jsval list list \<Rightarrow> jsval list list" where
  "accepted_batches w h [] = []"
| "accepted_batches w h (batch # rest) =
     (if isl (respond w (h @ [AddDocuments batch])) then [] else [batch])
     @ accepted_batches w (h @ [AddDocuments batch]) rest"

text \<open>
  The calendar date of a time value in UTC, in the form \<open>YYYY-MM-DD\<close>, and the test
  for that form: ten characters, digits except for the two hyphens.
\<close>

definition is_digit :: "char \<Rightarrow> bool" where
  "is_digit c = (c \<in> set ''0123456789'')"

definition is_YYYY_MM_DD :: "string \<Rightarrow> bool" where
  "is_YYYY_MM_DD s =
     (length s = 10 \<and> s ! 4 = CHR ''-'' \<and> s ! 7 = CHR ''-''
      \<and> list_all is_digit (take 4 s @ take 2 (drop 5 s) @ drop 8 s))"

definition utc_calendar_date :: "int \<Rightarrow> string" where
  "utc_calendar_date t =
     pad4 (nat (YearFromTime t)) @ ''-'' @ pad2 (nat (MonthFromTime t)) @ ''-''
     @ pad2 (nat (DateFromTime t))"

text \<open>The round trip: the Field Mapper, then the Document Transformer on the record it filled.\<close>

definition map_then_transform :: "date_parser \<Rightarrow> obj \<Rightarrow> jsval \<Rightarrow> js_error + jsval" where
  "map_then_transform Date_parse target payload =
     transformDocumentForSearch (JObj (snd (mapAPIFieldsToStrapi Date_parse target payload)))"

section \<open>Example inputs\<close>

text \<open>
  Records, payloads and worlds on which the theorems below are instantiated.
  \<open>example_parser\<close> is a date parser that knows two ISO strings, with the time values
  every engine gives them, and rejects everything else.
\<close>

definition ex_target :: obj where
  "ex_target = [(''Client_Name'', JStr ''Acme''), (''Industry'', JStr [])]"

definition ex_payload :: jsval where
  "ex_payload = JObj [(''Client_Name'', JStr ''Other''), (''Industry'', JStr ''Industry A'')]"

definition quiet_world :: world where
  "quiet_world = \<lparr>respond = (\<lambda>h. Inr JNull), latency = (\<lambda>h. 0)\<rparr>"

definition failing_store :: world where
  "failing_store = \<lparr>respond = (\<lambda>h. case last h of DbFindOne i \<Rightarrow> Inl (Error ''connection lost'') | _ \<Rightarrow> Inr JNull),
                     latency = (\<lambda>h. 0)\<rparr>"

definition start :: state where
  "start = \<lparr>history = [], now = 0\<rparr>"

definition publish_payload :: obj where
  "publish_payload = [(''SF_Number'', JStr ''SF-1''), (''publishedAt'', JStr ''2024-01-01'')]"

definition published_record :: obj where
  "published_record = [(''id'', JNum 7), (''documentId'', JStr ''abc123''), (''SF_Number'', JStr ''SF-1''),
     (''publishedAt'', JStr ''2024-01-01T00:00:00.000Z'')]"

definition draft_record :: obj where
  "draft_record = [(''id'', JNum 7), (''documentId'', JStr ''abc123''), (''publishedAt'', JNull)]"

definition draft_without_documentId :: obj where
  "draft_without_documentId = [(''id'', JNum 8)]"

definition no_dates :: date_parser where
  "no_dates = (\<lambda>s. None)"

definition hello_payload :: jsval where
  "hello_payload = JObj [(''Description'', JStr ''Hello world'')]"

fun is_AddDocuments :: "call \<Rightarrow> bool" where
  "is_AddDocuments (AddDocuments batch) = True"
| "is_AddDocuments c = False"

definition second_batch_fails :: world where
  "second_batch_fails =
     \<lparr>respond = (\<lambda>h. case last h of
                       EntityFindMany \<Rightarrow> Inr (JArr (replicate 250 (JObj published_record)))
                     | AddDocuments batch \<Rightarrow>
                         if length (filter is_AddDocuments h) = 2
                         then Inl (Error ''batch rejected'') else Inr JNull
                     | _ \<Rightarrow> Inr JNull),
      latency = (\<lambda>h. 0)\<rparr>"

definition engine_down :: world where
  "engine_down = \<lparr>respond = (\<lambda>h. Inl (Error ''engine unreachable'')), latency = (\<lambda>h. 0)\<rparr>"



definition example_parser :: date_parser where
  "example_parser s =
     (if s = ''2024-03-15T10:00:00Z'' then Some 1710496800000
      else if s = ''+010000-01-01T00:00:00.000Z'' then Some 253402300800000
      else None)"

definition date_payload :: "string \<Rightarrow> jsval" where
  "date_payload s = JObj [(''Last_Stage_Change_Date'', JStr s)]"

section \<open>Field Mapper: properties\<close>

lemma populate_all_Nil: "populate_all api [] d = d"
  by (simp add: populate_all_def)

lemma populate_all_Cons:
  "populate_all api ((f, tr) # ms) d = populate_all api ms (populateField d f (get_prop api f) tr)"
  by (simp add: populate_all_def)

lemma populateField_other:
  "g \<noteq> f \<Longrightarrow> map_of (populateField d f v tr) g = map_of d g"
  by (simp add: populateField_def Let_def update_conv')

lemma populateField_truthy:
  "truthy (field d f) \<Longrightarrow> populateField d f v tr = d"
  by (simp add: populateField_def)

lemma field_cong_map_of: "map_of d' g = map_of d g \<Longrightarrow> field d' g = field d g"
  by (simp add: field_def)

lemma populateField_changes:
  "map_of (populateField d f v tr) g \<noteq> map_of d g \<Longrightarrow>
     g = f \<and> \<not> truthy (field d f) \<and> v \<noteq> JUndefined \<and> v \<noteq> JNull \<and> v \<noteq> JStr []"
  by (auto simp add: populateField_def Let_def update_conv' split: if_splits)

lemma populate_all_keeps_truthy:
  "truthy (field d g) \<Longrightarrow> map_of (populate_all api ms d) g = map_of d g"
proof (induction ms arbitrary: d)
  case Nil
  show ?case by (simp add: populate_all_Nil)
next
  case (Cons m ms)
  obtain f tr where m: "m = (f, tr)" by (cases m)
  let ?d1 = "populateField d f (get_prop api f) tr"
  have same: "map_of ?d1 g = map_of d g"
    using Cons.prems populateField_truthy populateField_other by (cases "g = f") auto
  then have "truthy (field ?d1 g)"
    using Cons.prems by (simp add: field_def)
  then have "map_of (populate_all api ms ?d1) g = map_of ?d1 g"
    by (rule Cons.IH)
  with same show ?case by (simp add: m populate_all_Cons)
qed

lemma populate_all_changes:
  "map_of (populate_all api ms d) g \<noteq> map_of d g \<Longrightarrow>
     \<not> truthy (field d g) \<and> get_prop api g \<noteq> JUndefined \<and> get_prop api g \<noteq> JNull
       \<and> get_prop api g \<noteq> JStr []"
proof (induction ms arbitrary: d)
  case Nil
  then show ?case by (simp add: populate_all_Nil)
next
  case (Cons m ms)
  obtain f tr where m: "m = (f, tr)" by (cases m)
  let ?d1 = "populateField d f (get_prop api f) tr"
  show ?case
  proof (cases "map_of ?d1 g = map_of d g")
    case True
    with Cons.prems have "map_of (populate_all api ms ?d1) g \<noteq> map_of ?d1 g"
      by (simp add: m populate_all_Cons)
    from Cons.IH [OF this] True show ?thesis
      by (simp add: field_def)
  next
    case False
    from populateField_changes [OF False] show ?thesis by simp
  qed
qed

lemma populate_all_untouched:
  "g \<notin> fst ` set ms \<Longrightarrow> map_of (populate_all api ms d) g = map_of d g"
proof (induction ms arbitrary: d)
  case Nil
  show ?case by (simp add: populate_all_Nil)
next
  case (Cons m ms)
  obtain f tr where m: "m = (f, tr)" by (cases m)
  from Cons.prems have "g \<noteq> f" and "g \<notin> fst ` set ms" by (auto simp: m)
  then show ?case
    by (simp add: m populate_all_Cons Cons.IH populateField_other)
qed

lemma populateField_at:
  "map_of (populateField d f v tr) f =
     (if \<not> truthy (field d f) \<and> v \<noteq> JUndefined \<and> v \<noteq> JNull \<and> v \<noteq> JStr []
          \<and> (case tr of Some t \<Rightarrow> t v | None \<Rightarrow> v) \<noteq> JNull
      then Some (case tr of Some t \<Rightarrow> t v | None \<Rightarrow> v) else map_of d f)"
  by (simp add: populateField_def Let_def update_conv')

lemma populate_all_at:
  "distinct (map fst ms) \<Longrightarrow> (f, tr) \<in> set ms \<Longrightarrow>
     map_of (populate_all api ms d) f = map_of (populateField d f (get_prop api f) tr) f"
proof (induction ms arbitrary: d)
  case Nil
  then show ?case by simp
next
  case (Cons m ms)
  obtain g t where m: "m = (g, t)" by (cases m)
  let ?d1 = "populateField d g (get_prop api g) t"
  show ?case
  proof (cases "(f, tr) = (g, t)")
    case True
    with Cons.prems have "f \<notin> fst ` set ms" by (auto simp: m)
    then show ?thesis
      using True by (simp add: m populate_all_Cons populate_all_untouched)
  next
    case False
    with Cons.prems have mem: "(f, tr) \<in> set ms" and dist: "distinct (map fst ms)"
      and ne: "f \<noteq> g"
      by (auto simp: m rev_image_eqI)
    have "map_of ?d1 f = map_of d f"
      using ne by (rule populateField_other)
    then have "map_of (populateField ?d1 f (get_prop api f) tr) f
                = map_of (populateField d f (get_prop api f) tr) f"
      by (simp add: populateField_at field_def)
    with Cons.IH [OF dist mem, of ?d1] show ?thesis
      by (simp add: m populate_all_Cons)
  qed
qed

lemma fm_keys: "map fst (field_mappings P) = [''Unique_Id'', ''Client_Name'', ''Client_Contact'', ''Client_Contact_Buying_Center'',
  ''Client_Journey'', ''Document_Value_Range'', ''Competitors'', ''Client_Type'', ''Document_Confidentiality'',
  ''Document_Type'', ''Document_Sub_Type'', ''Document_Outcome'', ''Industry'', ''Sub_Industry'', ''Service'',
  ''Sub_Service'', ''Business_Unit'', ''Region'', ''Country'', ''State'', ''City'', ''Commercial_Program'',
  ''Description'', ''Last_Stage_Change_Date'', ''Author'', ''SMEs'']"
  by (simp add: field_mappings_def)

lemma field_mappings_distinct: "distinct (map fst (field_mappings P))"
  unfolding fm_keys by code_simp

lemma field_mappings_enum_part:
  "\<exists>pre post. field_mappings P = pre @ map (\<lambda>f. (f, Some (validateEnum f))) (map fst schemaEnums) @ post"
proof -
  have "field_mappings P = take 7 (field_mappings P) 
     @ map (\<lambda>f. (f, Some (validateEnum f))) (map fst schemaEnums) @ drop 22 (field_mappings P)"
    by (simp add: field_mappings_def schemaEnums_def)
  then show ?thesis by blast
qed

lemma enum_field_mapped:
  assumes "fld \<in> set (map fst schemaEnums)"
  shows "(fld, Some (validateEnum fld)) \<in> set (field_mappings P)"
proof -
  obtain pre post where
    "field_mappings P = pre @ map (\<lambda>f. (f, Some (validateEnum f))) (map fst schemaEnums) @ post"
    using field_mappings_enum_part by blast
  moreover have "(fld, Some (validateEnum fld)) \<in> set (map (\<lambda>f. (f, Some (validateEnum f))) (map fst schemaEnums))"
    using assms by (simp only: set_map) (rule imageI)
  ultimately show ?thesis by simp
qed

lemma schemaEnums_nonempty_entries: "\<forall>p \<in> set schemaEnums. [] \<notin> set (snd p)"
  by code_simp

lemma schemaEnums_length: "length schemaEnums = 15"
  by (simp add: schemaEnums_def)

lemma get_prop_nullish: "nullish api \<Longrightarrow> get_prop api f = JUndefined"
  by (cases api) simp_all

text \<open>
  Claim C3. For every target and enrichment payload, a target field whose value is truthy
  before the call of \<open>mapAPIFieldsToStrapi\<close> is the same after it (also when the call
  throws); and a field that differs after the call was falsy before and its enrichment
  value is neither \<open>undefined\<close>, nor \<open>null\<close>, nor the empty string.
\<close>

theorem mapper_never_overwrites:
  "(truthy (field strapiData f) \<longrightarrow>
      map_of (snd (mapAPIFieldsToStrapi P strapiData apiData)) f = map_of strapiData f)
   \<and> (map_of (snd (mapAPIFieldsToStrapi P strapiData apiData)) f \<noteq> map_of strapiData f \<longrightarrow>
        \<not> truthy (field strapiData f) \<and> get_prop apiData f \<noteq> JUndefined
        \<and> get_prop apiData f \<noteq> JNull \<and> get_prop apiData f \<noteq> JStr [])"
  using populate_all_keeps_truthy [of strapiData f apiData "field_mappings P"]
        populate_all_changes [of apiData "field_mappings P" strapiData f]
  by (auto simp add: mapAPIFieldsToStrapi_def)

lemma ex_mapped:
  "mapAPIFieldsToStrapi (\<lambda>s. None) ex_target ex_payload
     = (Inr (), [(''Client_Name'', JStr ''Acme''), (''Industry'', JStr ''Industry A'')])"
  by (simp add: mapAPIFieldsToStrapi_def populate_all_def field_mappings_def populateField_def
      field_def validateEnum_def schemaEnums_def array_includes_def ex_target_def ex_payload_def)

theorem mapper_never_overwrites_witness:
  "truthy (field ex_target ''Client_Name'')
   \<and> map_of (snd (mapAPIFieldsToStrapi (\<lambda>s. None) ex_target ex_payload)) ''Client_Name''
       = map_of ex_target ''Client_Name''
   \<and> map_of (snd (mapAPIFieldsToStrapi (\<lambda>s. None) ex_target ex_payload)) ''Industry''
       \<noteq> map_of ex_target ''Industry''
   \<and> \<not> truthy (field ex_target ''Industry'')
   \<and> get_prop ex_payload ''Industry'' \<noteq> JUndefined
   \<and> get_prop ex_payload ''Industry'' \<noteq> JNull
   \<and> get_prop ex_payload ''Industry'' \<noteq> JStr []"
proof -
  have t: "truthy (field ex_target ''Client_Name'')"
    by (simp add: ex_target_def field_def)
  have c: "map_of (snd (mapAPIFieldsToStrapi (\<lambda>s. None) ex_target ex_payload)) ''Industry''
       \<noteq> map_of ex_target ''Industry''"
    by (simp add: ex_mapped) (simp add: ex_target_def)
  from t c
    mapper_never_overwrites [of ex_target "''Client_Name''" "\<lambda>s. None" ex_payload]
    mapper_never_overwrites [of ex_target "''Industry''" "\<lambda>s. None" ex_payload]
  show ?thesis by blast
qed

text \<open>
  Claim C4, as amended. There are 15 enum-constrained fields. For each of them, with a
  falsy target slot: an enrichment value of the field's allow-list is stored; a truthy
  enrichment value outside the allow-list leaves the field as it was (absent stays
  absent); a falsy enrichment value other than \<open>undefined\<close>, \<open>null\<close> and the empty string
  (\<open>false\<close>, \<open>0\<close>) is not validated and is stored as it is. The mapper ends without an
  exception in all three cases.
\<close>

theorem enum_fields_validated:
  assumes enum: "map_of schemaEnums fld = Some allowed"
      and empty: "\<not> truthy (field strapiData fld)"
  shows "length schemaEnums = 15
     \<and> (array_includes allowed (get_prop apiData fld) \<longrightarrow>
          mapAPIFieldsToStrapi P strapiData apiData
            = (Inr (), snd (mapAPIFieldsToStrapi P strapiData apiData))
          \<and> map_of (snd (mapAPIFieldsToStrapi P strapiData apiData)) fld = Some (get_prop apiData fld))
     \<and> (truthy (get_prop apiData fld) \<and> \<not> array_includes allowed (get_prop apiData fld) \<longrightarrow>
          mapAPIFieldsToStrapi P strapiData apiData
            = (Inr (), snd (mapAPIFieldsToStrapi P strapiData apiData))
          \<and> map_of (snd (mapAPIFieldsToStrapi P strapiData apiData)) fld = map_of strapiData fld)
     \<and> (\<not> truthy (get_prop apiData fld) \<and> get_prop apiData fld \<noteq> JUndefined
          \<and> get_prop apiData fld \<noteq> JNull \<and> get_prop apiData fld \<noteq> JStr [] \<longrightarrow>
          mapAPIFieldsToStrapi P strapiData apiData
            = (Inr (), snd (mapAPIFieldsToStrapi P strapiData apiData))
          \<and> map_of (snd (mapAPIFieldsToStrapi P strapiData apiData)) fld = Some (get_prop apiData fld))"
proof -
  let ?v = "get_prop apiData fld"
  let ?r = "mapAPIFieldsToStrapi P strapiData apiData"
  from enum have mem: "(fld, allowed) \<in> set schemaEnums"
    by (rule map_of_SomeD)
  then have "fld \<in> set (map fst schemaEnums)"
    by (simp add: rev_image_eqI)
  then have tbl: "(fld, Some (validateEnum fld)) \<in> set (field_mappings P)"
    by (rule enum_field_mapped)
  have at: "\<not> nullish apiData \<Longrightarrow> map_of (snd ?r) fld
      = map_of (populateField strapiData fld ?v (Some (validateEnum fld))) fld"
    using populate_all_at [OF field_mappings_distinct tbl]
    by (simp add: mapAPIFieldsToStrapi_def)
  have ok: "\<not> nullish apiData \<Longrightarrow> ?r = (Inr (), snd ?r)"
    by (simp add: mapAPIFieldsToStrapi_def)
  have inc: "array_includes allowed ?v \<Longrightarrow> truthy ?v"
    using mem schemaEnums_nonempty_entries by (auto simp add: array_includes_def)
  have nn: "truthy ?v \<Longrightarrow> \<not> nullish apiData"
    using get_prop_nullish [of apiData fld] by auto
  have tv: "truthy ?v \<Longrightarrow> ?v \<noteq> JUndefined \<and> ?v \<noteq> JNull \<and> ?v \<noteq> JStr []"
    by auto
  have set_case: "array_includes allowed ?v \<Longrightarrow> map_of (snd ?r) fld = Some ?v"
  proof -
    assume i: "array_includes allowed ?v"
    have "validateEnum fld ?v = ?v"
      using i inc by (simp add: validateEnum_def enum)
    then show ?thesis
      using at nn inc [OF i] tv empty by (simp add: populateField_at)
  qed
  have drop_case: "truthy ?v \<Longrightarrow> \<not> array_includes allowed ?v \<Longrightarrow> map_of (snd ?r) fld = map_of strapiData fld"
  proof -
    assume t: "truthy ?v" and i: "\<not> array_includes allowed ?v"
    have "validateEnum fld ?v = JNull"
      using i t by (simp add: validateEnum_def enum)
    then show ?thesis
      using at nn t by (simp add: populateField_at)
  qed
  have defined: "?v \<noteq> JUndefined \<Longrightarrow> \<not> nullish apiData"
    using get_prop_nullish [of apiData fld] by auto
  have pass_case: "map_of (snd ?r) fld = Some ?v"
    if f: "\<not> truthy ?v" and d: "?v \<noteq> JUndefined" and n: "?v \<noteq> JNull" and e: "?v \<noteq> JStr []"
  proof -
    have "validateEnum fld ?v = ?v"
      using f by (simp add: validateEnum_def enum)
    then show ?thesis
      using at defined [OF d] d n e empty by (simp add: populateField_at)
  qed
  show ?thesis
    using schemaEnums_length set_case drop_case pass_case ok nn inc defined by blast
qed

theorem enum_fields_validated_witness:
  "map_of schemaEnums ''Industry'' = Some [''Industry A'', ''Industry B'', ''Industry C'']
   \<and> \<not> truthy (field [] ''Industry'')
   \<and> array_includes [''Industry A'', ''Industry B'', ''Industry C'']
        (get_prop (JObj [(''Industry'', JStr ''Industry A'')]) ''Industry'')
   \<and> map_of (snd (mapAPIFieldsToStrapi (\<lambda>s. None) [] (JObj [(''Industry'', JStr ''Industry A'')]))) ''Industry''
        = Some (JStr ''Industry A'')
   \<and> truthy (get_prop (JObj [(''Industry'', JStr ''NotARealIndustry'')]) ''Industry'')
   \<and> \<not> array_includes [''Industry A'', ''Industry B'', ''Industry C'']
        (get_prop (JObj [(''Industry'', JStr ''NotARealIndustry'')]) ''Industry'')
   \<and> mapAPIFieldsToStrapi (\<lambda>s. None) [] (JObj [(''Industry'', JStr ''NotARealIndustry'')])
        = (Inr (), snd (mapAPIFieldsToStrapi (\<lambda>s. None) [] (JObj [(''Industry'', JStr ''NotARealIndustry'')])))
   \<and> map_of (snd (mapAPIFieldsToStrapi (\<lambda>s. None) [] (JObj [(''Industry'', JStr ''NotARealIndustry'')]))) ''Industry''
        = None
   \<and> \<not> truthy (get_prop (JObj [(''Industry'', JBool False)]) ''Industry'')
   \<and> get_prop (JObj [(''Industry'', JBool False)]) ''Industry'' = JBool False
   \<and> map_of (snd (mapAPIFieldsToStrapi (\<lambda>s. None) [] (JObj [(''Industry'', JBool False)]))) ''Industry''
        = Some (JBool False)"
proof -
  have e: "map_of schemaEnums ''Industry'' = Some [''Industry A'', ''Industry B'', ''Industry C'']"
    by (simp add: schemaEnums_def)
  have f: "\<not> truthy (field [] ''Industry'')"
    by (simp add: field_def)
  have a: "array_includes [''Industry A'', ''Industry B'', ''Industry C'']
        (get_prop (JObj [(''Industry'', JStr ''Industry A'')]) ''Industry'')"
    by (simp add: array_includes_def field_def)
  have b: "truthy (get_prop (JObj [(''Industry'', JStr ''NotARealIndustry'')]) ''Industry'')
     \<and> \<not> array_includes [''Industry A'', ''Industry B'', ''Industry C'']
        (get_prop (JObj [(''Industry'', JStr ''NotARealIndustry'')]) ''Industry'')"
    by (simp add: array_includes_def field_def)
  have c: "\<not> truthy (get_prop (JObj [(''Industry'', JBool False)]) ''Industry'')
     \<and> get_prop (JObj [(''Industry'', JBool False)]) ''Industry'' = JBool False"
    by (simp add: field_def)
  from e f a b c
    enum_fields_validated [OF e f, of "JObj [(''Industry'', JStr ''Industry A'')]" "\<lambda>s. None"]
    enum_fields_validated [OF e f, of "JObj [(''Industry'', JStr ''NotARealIndustry'')]" "\<lambda>s. None"]
    enum_fields_validated [OF e f, of "JObj [(''Industry'', JBool False)]" "\<lambda>s. None"]
  show ?thesis by (simp add: field_def)
qed

text \<open>
  The claim as written fails: the guard of \<open>validateEnum\<close> returns a falsy value as it
  is, so \<open>0\<close> and \<open>false\<close>, which pass the test of \<open>populateField\<close> (defined, not
  \<open>null\<close>, not the empty string) and are in no allow-list, are stored.
\<close>

theorem enum_validation_counterexample:
  "map_of schemaEnums ''Industry'' = Some [''Industry A'', ''Industry B'', ''Industry C'']
   \<and> \<not> truthy (field [] ''Industry'')
   \<and> get_prop (JObj [(''Industry'', JNum 0)]) ''Industry'' = JNum 0
   \<and> \<not> array_includes [''Industry A'', ''Industry B'', ''Industry C''] (JNum 0)
   \<and> mapAPIFieldsToStrapi no_dates [] (JObj [(''Industry'', JNum 0)])
        = (Inr (), [(''Industry'', JNum 0)])
   \<and> get_prop (JObj [(''Industry'', JBool False)]) ''Industry'' = JBool False
   \<and> \<not> array_includes [''Industry A'', ''Industry B'', ''Industry C''] (JBool False)
   \<and> mapAPIFieldsToStrapi no_dates [] (JObj [(''Industry'', JBool False)])
        = (Inr (), [(''Industry'', JBool False)])"
  by (simp add: mapAPIFieldsToStrapi_def populate_all_def field_mappings_def populateField_def
      field_def validateEnum_def schemaEnums_def array_includes_def)

text \<open>The same for every date parser.\<close>

lemma enum_falsy_values_pass:
  "snd (mapAPIFieldsToStrapi P [] (JObj [(''Industry'', JBool False)])) = [(''Industry'', JBool False)]"
  "snd (mapAPIFieldsToStrapi P [] (JObj [(''Industry'', JNum 0)])) = [(''Industry'', JNum 0)]"
  by (simp_all add: mapAPIFieldsToStrapi_def populate_all_def field_mappings_def populateField_def
      field_def validateEnum_def schemaEnums_def)

section \<open>Orchestrator hooks: properties\<close>

lemma history_perform: "history (snd (perform w c s)) = history s @ [c]"
  by (simp add: perform_def)

lemma fst_perform: "fst (perform w c s) = respond w (history s @ [c])"
  by (simp add: perform_def)

lemma history_removeDocument: "history (snd (removeDocument w k s)) = history s @ [DeleteDocument k]"
  by (simp add: removeDocument_def perform_def split: sum.split)

lemma history_checkIfDocumentIsPublished:
  "history (snd (checkIfDocumentIsPublished w i s)) = history s @ [DbFindOne i]"
  by (simp add: checkIfDocumentIsPublished_def perform_def split: sum.split)

text \<open>
  Claim C2. When the payload of a pre-update event has the key \<open>publishedAt\<close>, with any
  value (also \<open>null\<close>), \<open>beforeUpdate\<close> returns the payload as it was and the world as it
  was: no call to the store, none to the enrichment service, no field written.
\<close>

theorem publish_guard:
  assumes "map_of data ''publishedAt'' = Some v"
  shows "beforeUpdate w Date_parse data where_id s = (data, s)"
  using assms by (simp add: beforeUpdate_def hasOwnProperty_def)

theorem publish_guard_witness:
  "map_of publish_payload ''publishedAt'' = Some (JStr ''2024-01-01'')
   \<and> beforeUpdate quiet_world (\<lambda>s. None) publish_payload (JNum 7) start = (publish_payload, start)"
proof -
  have h: "map_of publish_payload ''publishedAt'' = Some (JStr ''2024-01-01'')"
    by (simp add: publish_payload_def)
  from h publish_guard [OF h] show ?thesis by simp
qed

text \<open>
  Without the key \<open>publishedAt\<close> the same payload goes on to the store and to the
  enrichment service: the guard is what keeps a publish operation from them.
\<close>

lemma beforeUpdate_without_publishedAt:
  "history (snd (beforeUpdate quiet_world no_dates [(''SF_Number'', JStr ''SF-1'')] (JNum 7) start))
     = [EntityFindOne (JNum 7), AxiosGet (JStr ''SF-1'')]"
  by (simp add: beforeUpdate_def hasOwnProperty_def field_def perform_def quiet_world_def start_def
      fetchAndPopulateFromFastAPI_def)

text \<open>
  Claim C9. The key passed to the removal of a document is \<open>result.documentId\<close> when that
  is truthy and \<open>result.id\<close> otherwise: in \<open>afterUpdate\<close> when the record is found not
  published, in \<open>afterDelete\<close> always, and likewise in the older hook file.
\<close>

theorem removal_key:
  "(\<not> fst (checkIfDocumentIsPublished w (field result ''id'') s) \<longrightarrow>
      history (afterUpdate w result s)
        = history s @ [DbFindOne (field result ''id''),
                       DeleteDocument (if truthy (field result ''documentId'')
                                       then field result ''documentId'' else field result ''id'')])
   \<and> history (afterDelete w result s)
        = history s @ [DeleteDocument (if truthy (field result ''documentId'')
                                       then field result ''documentId'' else field result ''id'')]
   \<and> (\<not> truthy (field result ''publishedAt'') \<longrightarrow>
        history (afterUpdate_inline w result s)
          = history s @ [DeleteDocument (if truthy (field result ''documentId'')
                                         then field result ''documentId'' else field result ''id'')])
   \<and> history (afterDelete_inline w result s)
        = history s @ [DeleteDocument (if truthy (field result ''documentId'')
                                       then field result ''documentId'' else field result ''id'')]"
proof -
  obtain p s1 where c: "checkIfDocumentIsPublished w (field result ''id'') s = (p, s1)"
    by (cases "checkIfDocumentIsPublished w (field result ''id'') s")
  have h1: "history s1 = history s @ [DbFindOne (field result ''id'')]"
    using history_checkIfDocumentIsPublished [of w "field result ''id''" s] c by simp
  have "\<not> p \<Longrightarrow> history (afterUpdate w result s)
        = history s @ [DbFindOne (field result ''id''),
                       DeleteDocument (js_or (field result ''documentId'') (field result ''id''))]"
    by (simp add: afterUpdate_def c history_removeDocument h1)
  then show ?thesis
    by (simp add: c afterDelete_def afterUpdate_inline_def afterDelete_inline_def
        removeFromMeiliSearch_def history_removeDocument history_perform js_or_def)
qed

theorem removal_key_witness:
  "\<not> fst (checkIfDocumentIsPublished quiet_world (field draft_record ''id'') start)
   \<and> history (afterUpdate quiet_world draft_record start) = [DbFindOne (JNum 7), DeleteDocument (JStr ''abc123'')]
   \<and> \<not> truthy (field draft_without_documentId ''publishedAt'')
   \<and> history (afterUpdate_inline quiet_world draft_without_documentId start) = [DeleteDocument (JNum 8)]"
proof -
  have a: "\<not> fst (checkIfDocumentIsPublished quiet_world (field draft_record ''id'') start)"
    by (simp add: checkIfDocumentIsPublished_def perform_def quiet_world_def)
  have b: "\<not> truthy (field draft_without_documentId ''publishedAt'')"
    by (simp add: draft_without_documentId_def field_def)
  from a b removal_key [of quiet_world draft_record start]
    removal_key [of quiet_world draft_without_documentId start]
  show ?thesis
    by (simp add: draft_record_def draft_without_documentId_def field_def start_def)
qed

text \<open>
  Claim C10. \<open>checkIfDocumentIsPublished\<close> reads the record again from the store; when
  that lookup throws or finds no record, it answers \<open>false\<close>, so \<open>afterCreate\<close> makes no
  engine call and \<open>afterUpdate\<close> deletes the document from the index, whatever the
  \<open>publishedAt\<close> of the event's record is.
\<close>

theorem lookup_failure_means_unpublished:
  assumes "(\<exists>e. respond w (history s @ [DbFindOne (field result ''id'')]) = Inl e)
         \<or> (\<exists>v. respond w (history s @ [DbFindOne (field result ''id'')]) = Inr v \<and> \<not> truthy v)"
  shows "\<not> fst (checkIfDocumentIsPublished w (field result ''id'') s)
     \<and> history (snd (checkIfDocumentIsPublished w (field result ''id'') s))
         = history s @ [DbFindOne (field result ''id'')]
     \<and> history (afterCreate w result s) = history s @ [DbFindOne (field result ''id'')]
     \<and> history (afterUpdate w result s)
         = history s @ [DbFindOne (field result ''id''),
                        DeleteDocument (js_or (field result ''documentId'') (field result ''id''))]"
proof -
  obtain p s1 where c: "checkIfDocumentIsPublished w (field result ''id'') s = (p, s1)"
    by (cases "checkIfDocumentIsPublished w (field result ''id'') s")
  have h1: "history s1 = history s @ [DbFindOne (field result ''id'')]"
    using history_checkIfDocumentIsPublished [of w "field result ''id''" s] c by simp
  have np: "\<not> p"
    using assms c by (auto simp add: checkIfDocumentIsPublished_def perform_def)
  show ?thesis
    using np h1 by (simp add: c afterCreate_def afterUpdate_def history_removeDocument)
qed

theorem lookup_failure_means_unpublished_witness:
  "respond failing_store (history start @ [DbFindOne (field published_record ''id'')]) = Inl (Error ''connection lost'')
   \<and> truthy (field published_record ''publishedAt'')
   \<and> \<not> fst (checkIfDocumentIsPublished failing_store (field published_record ''id'') start)
   \<and> history (afterCreate failing_store published_record start) = [DbFindOne (JNum 7)]
   \<and> history (afterUpdate failing_store published_record start)
        = [DbFindOne (JNum 7), DeleteDocument (JStr ''abc123'')]"
proof -
  have h: "respond failing_store (history start @ [DbFindOne (field published_record ''id'')])
             = Inl (Error ''connection lost'')"
    by (simp add: failing_store_def)
  then have "(\<exists>e. respond failing_store (history start @ [DbFindOne (field published_record ''id'')]) = Inl e)
         \<or> (\<exists>v. respond failing_store (history start @ [DbFindOne (field published_record ''id'')]) = Inr v \<and> \<not> truthy v)"
    by blast
  from h lookup_failure_means_unpublished [OF this] show ?thesis
    by (simp add: published_record_def field_def start_def js_or_def)
qed

section \<open>Document Transformer: properties\<close>

lemma transform_cases:
  assumes "transformDocumentForSearch document = Inr out"
  obtains descriptionText attachmentsText where
    "extractTextFromBlocks (get_prop document ''Description'') = Inr descriptionText"
    "formatAttachments (get_prop document ''Attachments'') = Inr attachmentsText"
    "out = JObj ([(''id'', get_prop document ''id''), (''documentId'', get_prop document ''documentId'')]
                 @ core_fields document @ system_fields document
                 @ [(''Description'', JStr descriptionText),
                    (''attachments_text'', JStr attachmentsText),
                    (''searchableText'', searchableText document descriptionText attachmentsText),
                    (''filters'', filters document)])"
  using assms
  by (auto simp add: transformDocumentForSearch_def split: if_splits sum.splits)

lemma core_fields_keys:
  "map fst (core_fields document) =
     [''SF_Number'', ''Unique_Id'', ''Client_Name'', ''Client_Type'', ''Client_Contact'',
      ''Client_Contact_Buying_Center'', ''Client_Journey'',
      ''Document_Confidentiality'', ''Document_Type'', ''Document_Sub_Type'', ''Document_Value_Range'',
      ''Document_Outcome'', ''Last_Stage_Change_Date'',
      ''Industry'', ''Sub_Industry'', ''Service'', ''Sub_Service'', ''Business_Unit'', ''Region'',
      ''Country'', ''State'', ''City'',
      ''Author'', ''SMEs'', ''Commercial_Program'', ''Competitors'']"
  by (simp add: core_fields_def or_empty_def)

lemma system_fields_keys:
  "map fst (system_fields document) = [''publishedAt'', ''createdAt'', ''updatedAt'', ''locale'']"
  by (simp add: system_fields_def)

lemma map_of_absent: "k \<notin> set (map fst kvs) \<Longrightarrow> map_of kvs k = None"
  by (simp add: map_of_eq_None_iff)

lemma field_Cons: "field ((k', v) # kvs) k = (if k = k' then v else field kvs k)"
  by (simp add: field_def)

lemma field_append_miss: "k \<notin> set (map fst xs) \<Longrightarrow> field (xs @ ys) k = field ys k"
  by (simp add: field_def map_add_def map_of_absent)

lemma field_past_core:
  "k \<in> {''Description'', ''attachments_text'', ''searchableText'', ''filters''} \<Longrightarrow>
     field (core_fields document @ system_fields document @ rest) k = field rest k"
proof -
  assume k: "k \<in> {''Description'', ''attachments_text'', ''searchableText'', ''filters''}"
  then have "k \<notin> set (map fst (core_fields document))"
    unfolding core_fields_keys by auto
  moreover from k have "k \<notin> set (map fst (system_fields document))"
    unfolding system_fields_keys by auto
  ultimately show ?thesis
    by (simp add: field_append_miss)
qed

text \<open>
  Claim C1. Whenever \<open>transformDocumentForSearch\<close> returns a document, its \<open>id\<close> is the
  record's internal \<open>id\<close> and its \<open>documentId\<close> is the record's \<open>documentId\<close>: the
  key field \<open>id\<close> is not the document identifier.
\<close>

theorem transformed_id_is_internal_id:
  assumes "transformDocumentForSearch document = Inr out"
  shows "get_prop out ''id'' = get_prop document ''id''
       \<and> get_prop out ''documentId'' = get_prop document ''documentId''"
  using assms by (rule transform_cases) (simp add: field_def)

lemma published_record_transforms: "\<not> isl (transformDocumentForSearch (JObj published_record))"
  by (simp add: transformDocumentForSearch_def extractTextFromBlocks_def formatAttachments_def
      published_record_def field_def)

theorem transformed_id_is_internal_id_witness:
  "\<not> isl (transformDocumentForSearch (JObj published_record))
   \<and> get_prop (projr (transformDocumentForSearch (JObj published_record))) ''id'' = JNum 7
   \<and> get_prop (JObj published_record) ''documentId'' = JStr ''abc123''"
proof -
  have "transformDocumentForSearch (JObj published_record)
      = Inr (projr (transformDocumentForSearch (JObj published_record)))"
    using published_record_transforms
    by (cases "transformDocumentForSearch (JObj published_record)") simp_all
  from transformed_id_is_internal_id [OF this] have
    "get_prop (projr (transformDocumentForSearch (JObj published_record))) ''id''
       = get_prop (JObj published_record) ''id''" ..
  moreover have "get_prop (JObj published_record) ''id'' = JNum 7"
    by (simp add: published_record_def field_def)
  moreover have "get_prop (JObj published_record) ''documentId'' = JStr ''abc123''"
    by (simp add: published_record_def field_def)
  ultimately show ?thesis
    using published_record_transforms by simp
qed

lemma inline_id_is_documentId:
  assumes "searchableDocument_inline document = Inr out"
  shows "get_prop out ''id'' = js_or (get_prop document ''documentId'') (get_prop document ''id'')"
  using assms
  by (auto simp add: searchableDocument_inline_def field_def split: if_splits sum.splits)

lemma join_member_sublist: "x \<in> set xs \<Longrightarrow> sublist x (join sep xs)"
proof (induction sep xs rule: join.induct)
  case (1 sep)
  then show ?case by simp
next
  case (2 sep y)
  then show ?case by simp
next
  case (3 sep y z zs)
  show ?case
  proof (cases "x = y")
    case True
    then show ?thesis by simp
  next
    case False
    with 3 have "sublist x (join sep (z # zs))" by simp
    then obtain ps ss where "join sep (z # zs) = ps @ x @ ss"
      by (auto simp add: sublist_def)
    then have "join sep (y # z # zs) = (y @ sep @ ps) @ x @ ss" by simp
    then show ?thesis unfolding sublist_def by blast
  qed
qed

lemma lower_hello: "toLowerCase ''Hello world'' = ''hello world''"
  by code_simp

lemma hello_blocks_text:
  "extractTextFromBlocks (blocksTransformer (JStr ''Hello world'')) = Inr ''Hello world''"
  by (simp add: extractTextFromBlocks_def blocksTransformer_def block_text_def text_children_def
      field_def array_join_def join_elem_def trim_def is_space_def)

lemma searchableText_contains_description:
  assumes "descriptionText \<noteq> []"
  shows "\<exists>txt. searchableText document descriptionText attachmentsText = JStr txt
             \<and> sublist (toLowerCase descriptionText) txt"
proof -
  define parts where "parts = filter truthy
       [get_prop document ''SF_Number'', get_prop document ''Unique_Id'',
        get_prop document ''Client_Name'', get_prop document ''Client_Contact'',
        get_prop document ''Client_Contact_Buying_Center'', JStr descriptionText,
        get_prop document ''Document_Confidentiality'', get_prop document ''Industry'',
        get_prop document ''Service'', get_prop document ''Author'', get_prop document ''SMEs'',
        get_prop document ''Competitors'', JStr attachmentsText]"
  have "truthy (JStr descriptionText)"
    using assms by simp
  then have "JStr descriptionText \<in> set parts"
    unfolding parts_def set_filter by simp
  then have "join_elem (JStr descriptionText) \<in> join_elem ` set parts"
    by (rule imageI)
  then have "descriptionText \<in> set (map join_elem parts)"
    by (simp add: join_elem_def)
  then have "sublist descriptionText (array_join '' '' parts)"
    unfolding array_join_def by (rule join_member_sublist)
  then have "sublist (toLowerCase descriptionText) (toLowerCase (array_join '' '' parts))"
    unfolding toLowerCase_def by (rule map_mono_sublist)
  moreover have "searchableText document descriptionText attachmentsText
      = JStr (toLowerCase (array_join '' '' parts))"
    unfolding searchableText_def parts_def ..
  ultimately show ?thesis
    by blast
qed

lemma mapped_description:
  assumes "\<not> truthy (field target ''Description'')"
      and "get_prop payload ''Description'' = JStr ''Hello world''"
  shows "get_prop (JObj (snd (mapAPIFieldsToStrapi P target payload))) ''Description''
           = blocksTransformer (JStr ''Hello world'')"
proof -
  have nn: "\<not> nullish payload"
    using assms(2) get_prop_nullish [of payload "''Description''"] by auto
  have mem: "(''Description'', Some blocksTransformer) \<in> set (field_mappings P)"
    by (simp add: field_mappings_def)
  have "map_of (snd (mapAPIFieldsToStrapi P target payload)) ''Description''
      = map_of (populateField target ''Description'' (JStr ''Hello world'') (Some blocksTransformer)) ''Description''"
    using populate_all_at [OF field_mappings_distinct mem, of payload target] nn assms(2)
    by (simp add: mapAPIFieldsToStrapi_def)
  also have "\<dots> = Some (blocksTransformer (JStr ''Hello world''))"
    using assms(1) by (simp add: populateField_at) (simp add: blocksTransformer_def)
  finally show ?thesis by (simp add: field_def)
qed

text \<open>
  Claim C8, as amended. Mapping the description \<open>Hello world\<close> into a record whose
  \<open>Description\<close> is falsy and transforming the record gives a document whose plain-text
  \<open>Description\<close> is \<open>Hello world\<close> and whose composite \<open>searchableText\<close>, being
  lower-cased, contains \<open>hello world\<close>.
\<close>

theorem roundtrip_lowercased:
  assumes "\<not> truthy (field target ''Description'')"
      and "get_prop payload ''Description'' = JStr ''Hello world''"
      and "map_then_transform P target payload = Inr out"
  shows "get_prop out ''Description'' = JStr ''Hello world''
       \<and> (\<exists>txt. get_prop out ''searchableText'' = JStr txt \<and> sublist ''hello world'' txt)"
proof -
  let ?doc = "JObj (snd (mapAPIFieldsToStrapi P target payload))"
  from assms(3) have t: "transformDocumentForSearch ?doc = Inr out"
    by (simp add: map_then_transform_def)
  from t obtain descriptionText attachmentsText where
    d: "extractTextFromBlocks (get_prop ?doc ''Description'') = Inr descriptionText" and
    out: "out = JObj ([(''id'', get_prop ?doc ''id''), (''documentId'', get_prop ?doc ''documentId'')]
                 @ core_fields ?doc @ system_fields ?doc
                 @ [(''Description'', JStr descriptionText),
                    (''attachments_text'', JStr attachmentsText),
                    (''searchableText'', searchableText ?doc descriptionText attachmentsText),
                    (''filters'', filters ?doc)])"
    by (rule transform_cases)
  from d have dt: "descriptionText = ''Hello world''"
    using mapped_description [OF assms(1,2), of P] by (simp add: hello_blocks_text)
  have desc: "get_prop out ''Description'' = JStr ''Hello world''"
    by (simp add: out field_Cons field_past_core dt)
  have st: "get_prop out ''searchableText'' = searchableText ?doc ''Hello world'' attachmentsText"
    by (simp add: out field_Cons field_past_core dt)
  have "\<exists>txt. searchableText ?doc ''Hello world'' attachmentsText = JStr txt
             \<and> sublist (toLowerCase ''Hello world'') txt"
    by (rule searchableText_contains_description) simp
  with desc st show ?thesis
    by (simp add: lower_hello)
qed

lemma hello_roundtrip:
  "map_then_transform no_dates [] hello_payload
     = Inr (JObj ([(''id'', JUndefined), (''documentId'', JUndefined)]
                 @ core_fields (JObj [(''Description'', blocksTransformer (JStr ''Hello world''))])
                 @ system_fields (JObj [(''Description'', blocksTransformer (JStr ''Hello world''))])
                 @ [(''Description'', JStr ''Hello world''),
                    (''attachments_text'', JStr []),
                    (''searchableText'', JStr ''hello world''),
                    (''filters'', filters (JObj [(''Description'', blocksTransformer (JStr ''Hello world''))]))]))"
proof -
  have m: "snd (mapAPIFieldsToStrapi no_dates [] hello_payload)
             = [(''Description'', blocksTransformer (JStr ''Hello world''))]"
    by (simp add: mapAPIFieldsToStrapi_def populate_all_def field_mappings_def populateField_def
        field_def hello_payload_def) (simp add: blocksTransformer_def)
  have s: "searchableText (JObj [(''Description'', blocksTransformer (JStr ''Hello world''))]) ''Hello world'' []
             = JStr ''hello world''"
    by (simp add: searchableText_def field_def array_join_def join_elem_def lower_hello)
  show ?thesis
    by (simp add: map_then_transform_def m transformDocumentForSearch_def field_def hello_blocks_text
        formatAttachments_def s)
qed

theorem roundtrip_lowercased_witness:
  "\<not> truthy (field [] ''Description'')
   \<and> get_prop hello_payload ''Description'' = JStr ''Hello world''
   \<and> \<not> isl (map_then_transform no_dates [] hello_payload)
   \<and> get_prop (projr (map_then_transform no_dates [] hello_payload)) ''Description'' = JStr ''Hello world''
   \<and> (\<exists>txt. get_prop (projr (map_then_transform no_dates [] hello_payload)) ''searchableText'' = JStr txt
            \<and> sublist ''hello world'' txt)"
proof -
  have a: "\<not> truthy (field [] ''Description'')"
    by (simp add: field_def)
  have b: "get_prop hello_payload ''Description'' = JStr ''Hello world''"
    by (simp add: hello_payload_def field_def)
  have c: "\<not> isl (map_then_transform no_dates [] hello_payload)"
    by (simp add: hello_roundtrip)
  then have "map_then_transform no_dates [] hello_payload
             = Inr (projr (map_then_transform no_dates [] hello_payload))"
    by (cases "map_then_transform no_dates [] hello_payload") simp_all
  from roundtrip_lowercased [OF a b this] a b c show ?thesis
    by blast
qed

text \<open>
  The claim as written fails: the composite text of the round trip is \<open>hello world\<close>,
  in which \<open>Hello world\<close> with its capital letter does not occur.
\<close>

theorem roundtrip_counterexample:
  "\<not> isl (map_then_transform no_dates [] hello_payload)
   \<and> get_prop (projr (map_then_transform no_dates [] hello_payload)) ''searchableText'' = JStr ''hello world''
   \<and> \<not> sublist ''Hello world'' ''hello world''"
proof -
  have "\<not> sublist ''Hello world'' ''hello world''"
    by code_simp
  moreover have "get_prop (projr (map_then_transform no_dates [] hello_payload)) ''searchableText''
      = JStr ''hello world''"
    by (simp add: hello_roundtrip field_Cons field_past_core)
  ultimately show ?thesis
    by (simp add: hello_roundtrip)
qed

section \<open>Rebuild: properties\<close>

lemma index_batches_submit_all:
  "index_batches w docs i counts s = submit_all w (batches_from docs i) counts s"
proof (induction w docs i counts s rule: index_batches.induct)
  case (1 w docs i indexed skipped s)
  show ?case
  proof (cases "i < length docs")
    case False
    then show ?thesis
      by (simp add: batches_from.simps [of docs i] index_batches.simps [of w docs i])
  next
    case True
    obtain r s1 where p: "perform w (AddDocuments (take 100 (drop i docs))) s = (r, s1)"
      by (cases "perform w (AddDocuments (take 100 (drop i docs))) s")
    show ?thesis
    proof (cases r)
      case (Inl e)
      with True p "1.IH"(1) [OF True refl, of r s1 e] show ?thesis
        by (simp add: batches_from.simps [of docs i] index_batches.simps [of w docs i])
    next
      case (Inr v)
      with True p "1.IH"(2) [OF True refl, of r s1 v] show ?thesis
        by (simp add: batches_from.simps [of docs i] index_batches.simps [of w docs i])
    qed
  qed
qed

lemma history_submit_all:
  "history (snd (submit_all w bs counts s)) = history s @ map AddDocuments bs"
proof (induction bs arbitrary: counts s)
  case Nil
  show ?case by simp
next
  case (Cons b bs)
  obtain indexed skipped where c: "counts = (indexed, skipped)" by (cases counts)
  obtain r s1 where p: "perform w (AddDocuments b) s = (r, s1)"
    by (cases "perform w (AddDocuments b) s")
  then have h: "history s1 = history s @ [AddDocuments b]"
    by (auto simp add: perform_def)
  show ?case
    by (cases r) (simp_all add: c p Cons.IH h)
qed

lemma counts_submit_all:
  "fst (submit_all w bs (indexed, skipped) s)
     = (indexed + sum_list (map length (accepted_batches w (history s) bs)),
        skipped + sum_list (map length (failed_batches w (history s) bs)))"
proof (induction bs arbitrary: indexed skipped s)
  case Nil
  show ?case by simp
next
  case (Cons b bs)
  obtain r s1 where p: "perform w (AddDocuments b) s = (r, s1)"
    by (cases "perform w (AddDocuments b) s")
  then have h: "history s1 = history s @ [AddDocuments b]"
    and r: "r = respond w (history s @ [AddDocuments b])"
    by (auto simp add: perform_def)
  show ?case
  proof (cases r)
    case (Inl e)
    with r have "respond w (history s @ [AddDocuments b]) = Inl e" by simp
    then have "isl (respond w (history s @ [AddDocuments b]))" by simp
    with Inl show ?thesis by (simp add: p Cons.IH h)
  next
    case (Inr v)
    with r have "respond w (history s @ [AddDocuments b]) = Inr v" by simp
    then have "\<not> isl (respond w (history s @ [AddDocuments b]))" by simp
    with Inr show ?thesis by (simp add: p Cons.IH h)
  qed
qed

lemma accepted_plus_failed:
  "sum_list (map length (accepted_batches w h bs)) + sum_list (map length (failed_batches w h bs))
     = length (concat bs)"
  by (induction bs arbitrary: h) auto

lemma concat_batches_from: "concat (batches_from docs i) = drop i docs"
proof (induction docs i rule: batches_from.induct)
  case (1 docs i)
  show ?case
  proof (cases "i < length docs")
    case True
    have "take 100 (drop i docs) @ drop (i + 100) docs = drop i docs"
      by (metis add.commute append_take_drop_id drop_drop)
    with True "1.IH" show ?thesis
      by (simp add: batches_from.simps [of docs i])
  next
    case False
    then show ?thesis by (simp add: batches_from.simps [of docs i])
  qed
qed

lemma batch_sizes:
  "map length (batches_from docs i)
     = replicate ((length docs - i) div 100) 100
       @ (if (length docs - i) mod 100 = 0 then [] else [(length docs - i) mod 100])"
proof (induction docs i rule: batches_from.induct)
  case (1 docs i)
  show ?case
  proof (cases "i < length docs")
    case False
    then show ?thesis by (simp add: batches_from.simps [of docs i])
  next
    case True
    show ?thesis
    proof (cases "length docs - i < 100")
      case True
      with \<open>i < length docs\<close> have "batches_from docs (i + 100) = []"
        by (simp add: batches_from.simps [of docs "i + 100"])
      with True \<open>i < length docs\<close> show ?thesis
        by (simp add: batches_from.simps [of docs i])
    next
      case False
      then have ge: "100 \<le> length docs - i" by simp
      then have d: "(length docs - i) div 100 = Suc ((length docs - (i + 100)) div 100)"
        and m: "(length docs - i) mod 100 = (length docs - (i + 100)) mod 100"
        by (simp_all add: le_div_geq le_mod_geq)
      from ge have l: "min (length docs - i) 100 = 100" by simp
      from \<open>i < length docs\<close> "1.IH" show ?thesis
        by (simp add: batches_from.simps [of docs i] d m l)
    qed
  qed
qed

lemma batches_nonempty: "b \<in> set (batches_from docs i) \<Longrightarrow> b \<noteq> [] \<and> length b \<le> 100"
proof (induction docs i rule: batches_from.induct)
  case (1 docs i)
  show ?case
  proof (cases "i < length docs")
    case True
    with "1.prems" "1.IH" show ?thesis
      by (auto simp add: batches_from.simps [of docs i])
  next
    case False
    with "1.prems" show ?thesis by (simp add: batches_from.simps [of docs i])
  qed
qed

lemma length_traverse: "traverse f xs = Inr ys \<Longrightarrow> length ys = length xs"
  by (induction xs arbitrary: ys) (auto split: sum.splits)

lemma traverse_replicate: "f x = Inr y \<Longrightarrow> traverse f (replicate n x) = Inr (replicate n y)"
  by (induction n) simp_all

lemma rebuild_found:
  assumes found: "respond w (history s @ [EntityFindMany]) = Inr (JArr docs)"
      and transformed: "traverse transformDocumentForSearch docs = Inr sdocs"
  shows "rebuildIndex w s
           = (Inr (fst (submit_all w (batches_from sdocs 0) (0, 0) (snd (perform w EntityFindMany s)))),
              snd (submit_all w (batches_from sdocs 0) (0, 0) (snd (perform w EntityFindMany s))))"
proof (cases docs)
  case Nil
  with transformed have "sdocs = []" by simp
  then have "batches_from sdocs 0 = []"
    by (simp add: batches_from.simps [of "[]" 0])
  with Nil found show ?thesis
    by (simp add: rebuildIndex_def perform_def js_length_def)
next
  case (Cons d ds)
  then have "js_length (JArr docs) \<noteq> JNum 0"
    by (simp add: js_length_def)
  with found transformed show ?thesis
    by (simp add: rebuildIndex_def perform_def index_batches_submit_all split: prod.split)
qed

text \<open>
  Claim C6. When the store returns the published records and each of them transforms,
  \<open>rebuildIndex\<close> returns counts and does not throw; it submits the transformed
  documents in order, in batches of 100 (the last one smaller), one after the other and
  whatever the engine answered to earlier batches; \<open>skipped\<close> is the total size of the
  batches whose submission failed, and \<open>indexed + skipped\<close> is the number of records.
  For 250 records the batches have sizes 100, 100 and 50, and a failure of the second
  batch alone gives \<open>indexed = 150\<close> and \<open>skipped = 100\<close>.
\<close>

theorem rebuild_in_batches:
  assumes found: "respond w (history s @ [EntityFindMany]) = Inr (JArr docs)"
      and transformed: "traverse transformDocumentForSearch docs = Inr sdocs"
  shows "\<exists>indexed skipped s'.
      rebuildIndex w s = (Inr (indexed, skipped), s')
    \<and> history s' = history s @ EntityFindMany # map AddDocuments (batches_from sdocs 0)
    \<and> concat (batches_from sdocs 0) = sdocs
    \<and> map length (batches_from sdocs 0)
        = replicate (length docs div 100) 100
          @ (if length docs mod 100 = 0 then [] else [length docs mod 100])
    \<and> skipped = sum_list (map length
          (failed_batches w (history s @ [EntityFindMany]) (batches_from sdocs 0)))
    \<and> indexed + skipped = length docs
    \<and> (length docs = 250 \<longrightarrow>
          map length (batches_from sdocs 0) = [100, 100, 50]
        \<and> (\<not> isl (respond w (history s @ [EntityFindMany, AddDocuments (take 100 sdocs)]))
           \<and> isl (respond w (history s @ [EntityFindMany, AddDocuments (take 100 sdocs),
                                AddDocuments (take 100 (drop 100 sdocs))]))
           \<and> \<not> isl (respond w (history s @ [EntityFindMany, AddDocuments (take 100 sdocs),
                                AddDocuments (take 100 (drop 100 sdocs)),
                                AddDocuments (take 100 (drop 200 sdocs))]))
           \<longrightarrow> indexed = 150 \<and> skipped = 100))"
proof -
  let ?bs = "batches_from sdocs 0"
  let ?s1 = "snd (perform w EntityFindMany s)"
  let ?h1 = "history s @ [EntityFindMany]"
  let ?indexed = "sum_list (map length (accepted_batches w ?h1 ?bs))"
  let ?skipped = "sum_list (map length (failed_batches w ?h1 ?bs))"
  have h1: "history ?s1 = ?h1"
    by (simp add: perform_def)
  have len: "length sdocs = length docs"
    using transformed by (rule length_traverse)
  have r: "rebuildIndex w s = (Inr (?indexed, ?skipped), snd (submit_all w ?bs (0, 0) ?s1))"
    using rebuild_found [OF found transformed] counts_submit_all [of w ?bs 0 0 ?s1]
    by (simp add: h1)
  have hist: "history (snd (submit_all w ?bs (0, 0) ?s1))
                = history s @ EntityFindMany # map AddDocuments ?bs"
    by (simp add: history_submit_all h1)
  have cc: "concat ?bs = sdocs"
    by (simp add: concat_batches_from)
  have sizes: "map length ?bs = replicate (length docs div 100) 100
          @ (if length docs mod 100 = 0 then [] else [length docs mod 100])"
    using batch_sizes [of sdocs 0] by (simp add: len)
  have total: "?indexed + ?skipped = length docs"
    using accepted_plus_failed [of w ?h1 ?bs] by (simp add: cc len)
  have inst: "map length ?bs = [100, 100, 50]
        \<and> (\<not> isl (respond w (history s @ [EntityFindMany, AddDocuments (take 100 sdocs)]))
           \<and> isl (respond w (history s @ [EntityFindMany, AddDocuments (take 100 sdocs),
                                AddDocuments (take 100 (drop 100 sdocs))]))
           \<and> \<not> isl (respond w (history s @ [EntityFindMany, AddDocuments (take 100 sdocs),
                                AddDocuments (take 100 (drop 100 sdocs)),
                                AddDocuments (take 100 (drop 200 sdocs))]))
           \<longrightarrow> ?indexed = 150 \<and> ?skipped = 100)"
    if n: "length docs = 250"
  proof -
    have l: "length sdocs = 250" using n len by simp
    have bs: "?bs = [take 100 sdocs, take 100 (drop 100 sdocs), take 100 (drop 200 sdocs)]"
      by (simp add: batches_from.simps [of sdocs 0] batches_from.simps [of sdocs 100]
          batches_from.simps [of sdocs 200] batches_from.simps [of sdocs 300] l)
    have "map length ?bs = [100, 100, 50]"
      by (simp add: bs l)
    moreover have "?indexed = 150 \<and> ?skipped = 100"
      if "\<not> isl (respond w (history s @ [EntityFindMany, AddDocuments (take 100 sdocs)]))"
        and "isl (respond w (history s @ [EntityFindMany, AddDocuments (take 100 sdocs),
                                AddDocuments (take 100 (drop 100 sdocs))]))"
        and "\<not> isl (respond w (history s @ [EntityFindMany, AddDocuments (take 100 sdocs),
                                AddDocuments (take 100 (drop 100 sdocs)),
                                AddDocuments (take 100 (drop 200 sdocs))]))"
      using that by (simp add: bs l)
    ultimately show ?thesis by blast
  qed
  show ?thesis
  proof (intro exI conjI)
    show "rebuildIndex w s = (Inr (?indexed, ?skipped), snd (submit_all w ?bs (0, 0) ?s1))"
      by (rule r)
    show "history (snd (submit_all w ?bs (0, 0) ?s1))
            = history s @ EntityFindMany # map AddDocuments ?bs"
      by (rule hist)
    show "concat ?bs = sdocs"
      by (rule cc)
    show "map length ?bs = replicate (length docs div 100) 100
          @ (if length docs mod 100 = 0 then [] else [length docs mod 100])"
      by (rule sizes)
    show "?skipped = sum_list (map length (failed_batches w (history s @ [EntityFindMany]) ?bs))"
      by (rule refl)
    show "?indexed + ?skipped = length docs"
      by (rule total)
    show "length docs = 250 \<longrightarrow>
          map length ?bs = [100, 100, 50]
        \<and> (\<not> isl (respond w (history s @ [EntityFindMany, AddDocuments (take 100 sdocs)]))
           \<and> isl (respond w (history s @ [EntityFindMany, AddDocuments (take 100 sdocs),
                                AddDocuments (take 100 (drop 100 sdocs))]))
           \<and> \<not> isl (respond w (history s @ [EntityFindMany, AddDocuments (take 100 sdocs),
                                AddDocuments (take 100 (drop 100 sdocs)),
                                AddDocuments (take 100 (drop 200 sdocs))]))
           \<longrightarrow> ?indexed = 150 \<and> ?skipped = 100)"
      using inst by (rule impI)
  qed
qed

theorem rebuild_in_batches_witness:
  "respond second_batch_fails (history start @ [EntityFindMany])
      = Inr (JArr (replicate 250 (JObj published_record)))
   \<and> length (replicate 250 (JObj published_record)) = 250
   \<and> fst (rebuildIndex second_batch_fails start) = Inr (150, 100)"
proof -
  let ?sdocs = "replicate 250 (projr (transformDocumentForSearch (JObj published_record)))"
  have found: "respond second_batch_fails (history start @ [EntityFindMany])
      = Inr (JArr (replicate 250 (JObj published_record)))"
    by (simp add: second_batch_fails_def)
  have "transformDocumentForSearch (JObj published_record)
      = Inr (projr (transformDocumentForSearch (JObj published_record)))"
    using published_record_transforms
    by (cases "transformDocumentForSearch (JObj published_record)") simp_all
  then have transformed: "traverse transformDocumentForSearch (replicate 250 (JObj published_record))
      = Inr ?sdocs"
    by (rule traverse_replicate)
  have n: "length (replicate 250 (JObj published_record)) = 250"
    by simp
  have c1: "\<not> isl (respond second_batch_fails
              (history start @ [EntityFindMany, AddDocuments (take 100 ?sdocs)]))"
    by (simp add: second_batch_fails_def start_def)
  have c2: "isl (respond second_batch_fails
              (history start @ [EntityFindMany, AddDocuments (take 100 ?sdocs),
                                AddDocuments (take 100 (drop 100 ?sdocs))]))"
    by (simp add: second_batch_fails_def start_def)
  have c3: "\<not> isl (respond second_batch_fails
              (history start @ [EntityFindMany, AddDocuments (take 100 ?sdocs),
                                AddDocuments (take 100 (drop 100 ?sdocs)),
                                AddDocuments (take 100 (drop 200 ?sdocs))]))"
    by (simp add: second_batch_fails_def start_def)
  from rebuild_in_batches [OF found transformed] n c1 c2 c3
  have "fst (rebuildIndex second_batch_fails start) = Inr (150, 100)"
    by auto
  with found n show ?thesis by blast
qed

section \<open>Refresh: properties\<close>







lemma engine_down_refresh:
  "refreshIndex engine_down start
     = (Inr (refresh_failed (JStr ''engine unreachable'')),
        \<lparr>history = [DeleteAllDocuments], now = 0\<rparr>)"
  by (simp add: refreshIndex_def clearIndex_def perform_def engine_down_def start_def
      refresh_catch_def error_message_def)








section \<open>Date normalization: properties\<close>

lemma civil_examples:
  "civil_from_days 19797 = (2024, 3, 15)"
  "civil_from_days 11016 = (2000, 2, 29)"
  "civil_from_days (- 1) = (1969, 12, 31)"
  "civil_from_days 2932897 = (10000, 1, 1)"
  by code_simp+

lemma iso_date_examples:
  "split_T_first (toISOString 1710496800000) = ''2024-03-15''"
  "split_T_first (toISOString 951827696789) = ''2000-02-29''"
  "split_T_first (toISOString (- 1)) = ''1969-12-31''"
  "split_T_first (toISOString 253402300800000) = ''+010000-01-01''"
  by (simp_all add: split_T_first_def toISOString_def YearFromTime_def MonthFromTime_def
      DateFromTime_def msPerDay_def civil_examples year_string_def pad2_def pad3_def pad4_def
      pad6_def digit_char_def Let_def)

lemma example_parser_valid:
  "new_Date example_parser ''2024-03-15T10:00:00Z'' = Some 1710496800000"
  "new_Date example_parser ''+010000-01-01T00:00:00.000Z'' = Some 253402300800000"
  "new_Date example_parser ''not-a-date'' = None"
  by (simp_all add: new_Date_def example_parser_def)

lemma year_examples:
  "YearFromTime 1710496800000 = 2024"
  "YearFromTime 253402300800000 = 10000"
  by (simp_all add: YearFromTime_def msPerDay_def civil_examples)

lemma is_digit_digit_char: "is_digit (digit_char (n mod 10))"
proof -
  have "n mod 10 < length ''0123456789''" by simp
  then have "''0123456789'' ! (n mod 10) \<in> set ''0123456789''"
    by (rule nth_mem)
  then show ?thesis
    by (simp only: is_digit_def digit_char_def)
qed

lemma is_digit_not_T: "is_digit c \<Longrightarrow> c \<noteq> CHR ''T''"
  by (auto simp add: is_digit_def)

lemma utc_calendar_date_shape: "is_YYYY_MM_DD (utc_calendar_date t)"
  by (simp add: is_YYYY_MM_DD_def utc_calendar_date_def pad2_def pad3_def pad4_def
      is_digit_digit_char)

lemma digit_char_not_T: "digit_char (n mod 10) \<noteq> CHR ''T''"
  using is_digit_digit_char [of n] by (rule is_digit_not_T)

lemma utc_calendar_date_no_T: "c \<in> set (utc_calendar_date t) \<Longrightarrow> c \<noteq> CHR ''T''"
  by (auto simp add: utc_calendar_date_def pad2_def pad3_def pad4_def digit_char_not_T
      digit_char_not_T [THEN not_sym])

lemma iso_date_part:
  assumes "0 \<le> YearFromTime t" and "YearFromTime t \<le> 9999"
  shows "split_T_first (toISOString t) = utc_calendar_date t"
proof -
  define rest where "rest = pad2 (nat (t mod msPerDay div 3600000)) @ '':''
         @ pad2 (nat (t mod msPerDay div 60000 mod 60)) @ '':''
         @ pad2 (nat (t mod msPerDay div 1000 mod 60)) @ ''.''
         @ pad3 (nat (t mod msPerDay mod 1000)) @ ''Z''"
  have "toISOString t = utc_calendar_date t @ CHR ''T'' # rest"
    unfolding toISOString_def utc_calendar_date_def rest_def Let_def year_string_def
    using assms by simp
  moreover have "takeWhile (\<lambda>c. c \<noteq> CHR ''T'') (utc_calendar_date t @ CHR ''T'' # rest)
      = utc_calendar_date t @ takeWhile (\<lambda>c. c \<noteq> CHR ''T'') (CHR ''T'' # rest)"
    by (rule takeWhile_append2) (rule utc_calendar_date_no_T)
  ultimately show ?thesis
    by (simp add: split_T_first_def)
qed

lemma date_field_mapped:
  "(''Last_Stage_Change_Date'', Some (dateTransformer P)) \<in> set (field_mappings P)"
  by (simp add: field_mappings_def)

lemma date_slot:
  assumes "\<not> nullish apiData"
  shows "map_of (snd (mapAPIFieldsToStrapi P strapiData apiData)) ''Last_Stage_Change_Date''
      = map_of (populateField strapiData ''Last_Stage_Change_Date''
                  (get_prop apiData ''Last_Stage_Change_Date'') (Some (dateTransformer P)))
          ''Last_Stage_Change_Date''"
  using populate_all_at [OF field_mappings_distinct date_field_mapped, where api = apiData and d = strapiData and P1 = P] assms
  by (simp add: mapAPIFieldsToStrapi_def)

text \<open>
  Claim C5, as amended. For a string enrichment value of \<open>Last_Stage_Change_Date\<close> and a
  falsy target slot: when the string is not empty and parses to a valid date, the mapper
  stores the part before \<open>T\<close> of the date's UTC ISO string; for a UTC year from 0 to
  9999 that is the calendar date in the form \<open>YYYY-MM-DD\<close>. When the string does not
  parse (or is empty), the field is left as it was.
\<close>

theorem date_normalized:
  assumes "\<not> truthy (field strapiData ''Last_Stage_Change_Date'')"
      and "get_prop apiData ''Last_Stage_Change_Date'' = JStr s"
  shows "(s \<noteq> [] \<and> new_Date P s = Some t \<longrightarrow>
            map_of (snd (mapAPIFieldsToStrapi P strapiData apiData)) ''Last_Stage_Change_Date''
              = Some (JStr (split_T_first (toISOString t)))
          \<and> (0 \<le> YearFromTime t \<and> YearFromTime t \<le> 9999 \<longrightarrow>
                split_T_first (toISOString t) = utc_calendar_date t
              \<and> is_YYYY_MM_DD (split_T_first (toISOString t))))
       \<and> (s = [] \<or> new_Date P s = None \<longrightarrow>
            map_of (snd (mapAPIFieldsToStrapi P strapiData apiData)) ''Last_Stage_Change_Date''
              = map_of strapiData ''Last_Stage_Change_Date'')"
proof -
  have nn: "\<not> nullish apiData"
    using assms(2) get_prop_nullish [of apiData "''Last_Stage_Change_Date''"] by auto
  note slot = date_slot [OF nn, where P = P and strapiData = strapiData]
  have valid: "map_of (snd (mapAPIFieldsToStrapi P strapiData apiData)) ''Last_Stage_Change_Date''
              = Some (JStr (split_T_first (toISOString t)))"
    if "s \<noteq> []" and "new_Date P s = Some t"
    using that assms by (simp add: slot populateField_at dateTransformer_def)
  have shape: "split_T_first (toISOString t) = utc_calendar_date t
              \<and> is_YYYY_MM_DD (split_T_first (toISOString t))"
    if "0 \<le> YearFromTime t" and "YearFromTime t \<le> 9999"
    using that by (simp add: iso_date_part utc_calendar_date_shape)
  have invalid: "map_of (snd (mapAPIFieldsToStrapi P strapiData apiData)) ''Last_Stage_Change_Date''
              = map_of strapiData ''Last_Stage_Change_Date''"
    if "s = [] \<or> new_Date P s = None"
    using that assms by (auto simp add: slot populateField_at dateTransformer_def)
  from valid shape invalid show ?thesis by blast
qed

theorem date_normalized_witness:
  "\<not> truthy (field [] ''Last_Stage_Change_Date'')
   \<and> get_prop (date_payload ''2024-03-15T10:00:00Z'') ''Last_Stage_Change_Date'' = JStr ''2024-03-15T10:00:00Z''
   \<and> new_Date example_parser ''2024-03-15T10:00:00Z'' = Some 1710496800000
   \<and> map_of (snd (mapAPIFieldsToStrapi example_parser [] (date_payload ''2024-03-15T10:00:00Z'')))
        ''Last_Stage_Change_Date'' = Some (JStr ''2024-03-15'')
   \<and> is_YYYY_MM_DD ''2024-03-15''
   \<and> new_Date example_parser ''not-a-date'' = None
   \<and> map_of (snd (mapAPIFieldsToStrapi example_parser [] (date_payload ''not-a-date'')))
        ''Last_Stage_Change_Date'' = None"
proof -
  have e: "\<not> truthy (field [] ''Last_Stage_Change_Date'')"
    by (simp add: field_def)
  have p1: "get_prop (date_payload ''2024-03-15T10:00:00Z'') ''Last_Stage_Change_Date''
              = JStr ''2024-03-15T10:00:00Z''"
    by (simp add: date_payload_def field_def)
  have p2: "get_prop (date_payload ''not-a-date'') ''Last_Stage_Change_Date'' = JStr ''not-a-date''"
    by (simp add: date_payload_def field_def)
  have y: "0 \<le> YearFromTime 1710496800000 \<and> YearFromTime 1710496800000 \<le> 9999"
    by (simp add: year_examples)
  have v: "''2024-03-15T10:00:00Z'' \<noteq> [] \<and> new_Date example_parser ''2024-03-15T10:00:00Z'' = Some 1710496800000"
    by (simp add: example_parser_valid)
  have i: "''not-a-date'' = [] \<or> new_Date example_parser ''not-a-date'' = None"
    by (simp add: example_parser_valid)
  from date_normalized [OF e p1, of example_parser 1710496800000] v y
  have "map_of (snd (mapAPIFieldsToStrapi example_parser [] (date_payload ''2024-03-15T10:00:00Z'')))
        ''Last_Stage_Change_Date'' = Some (JStr (split_T_first (toISOString 1710496800000)))
     \<and> is_YYYY_MM_DD (split_T_first (toISOString 1710496800000))"
    by blast
  moreover from date_normalized [OF e p2, of example_parser] i
  have "map_of (snd (mapAPIFieldsToStrapi example_parser [] (date_payload ''not-a-date'')))
        ''Last_Stage_Change_Date'' = map_of [] ''Last_Stage_Change_Date''"
    by blast
  ultimately show ?thesis
    using e p1 by (simp add: iso_date_examples example_parser_valid)
qed

text \<open>
  The claim as written fails for a valid date outside the years 0 to 9999: the ISO string
  of the year 10000 starts with \<open>+010000\<close>, and that is what the mapper stores.
\<close>

theorem date_normalized_counterexample:
  "new_Date example_parser ''+010000-01-01T00:00:00.000Z'' = Some 253402300800000
   \<and> map_of (snd (mapAPIFieldsToStrapi example_parser []
                     (date_payload ''+010000-01-01T00:00:00.000Z''))) ''Last_Stage_Change_Date''
        = Some (JStr ''+010000-01-01'')
   \<and> \<not> is_YYYY_MM_DD ''+010000-01-01''"
proof -
  have "\<not> nullish (date_payload ''+010000-01-01T00:00:00.000Z'')"
    by (simp add: date_payload_def)
  from date_slot [OF this, where P = example_parser and strapiData = "[]"]
  have "map_of (snd (mapAPIFieldsToStrapi example_parser []
                     (date_payload ''+010000-01-01T00:00:00.000Z''))) ''Last_Stage_Change_Date''
        = Some (JStr (split_T_first (toISOString 253402300800000)))"
    by (simp add: populateField_at dateTransformer_def example_parser_valid date_payload_def field_def)
  moreover have "\<not> is_YYYY_MM_DD ''+010000-01-01''"
    by code_simp
  ultimately show ?thesis
    by (simp add: example_parser_valid iso_date_examples)
qed

end
